theory Spec2Isabelle
  imports
    Complex_Main
    "HOL-Library.Char_ord"
    "HOL-Library.List_Lexorder"
    "HOL-Library.Multiset"
    "HOL-Library.Product_Lexorder"
begin

section \<open>Data model: the tables of the schema\<close>

text \<open>
  The consistency core of the repository is the SQL schema script: the tables with their
  constraints, the row triggers on \<^verbatim>\<open>purchases\<close> and \<^verbatim>\<open>invoice_items\<close>, the two guarded
  deletions and the three reporting functions. A table is a list of rows, each paired with
  its primary key \<^verbatim>\<open>id\<close>; a \<^verbatim>\<open>uuid\<close> is an opaque key and a \<^verbatim>\<open>date\<close> a day number.
  Columns of type \<^verbatim>\<open>integer\<close> are 32-bit: an arithmetic result outside the range raises
  an error in the store, which the model writes out (\<open>int4\<close> below). Columns of type
  \<^verbatim>\<open>numeric\<close> are exact decimals, modelled as rationals. Columns that nothing in the core
  reads (timestamps, user ids, notes, descriptions, units, categories) are left out.
\<close>

type_synonym uuid = nat
type_synonym date = int

record product =
  p_name :: string
  stock_quantity :: int
  p_unit_price :: rat
  p_tax_rate :: rat

record purchase =
  pu_product_id :: uuid
  purchase_date :: date
  reference_invoice :: "string option"
  pu_quantity :: int

record invoice =
  invoice_number :: string
  invoice_date :: date
  total_amount :: rat

record invoice_item =
  ii_invoice_id :: uuid
  ii_product_id :: uuid
  ii_quantity :: int
  ii_unit_price :: rat
  ii_tax_rate :: rat

record db =
  products :: "(uuid \<times> product) list"
  purchases :: "(uuid \<times> purchase) list"
  invoices :: "(uuid \<times> invoice) list"
  invoice_items :: "(uuid \<times> invoice_item) list"

text \<open>
  Every failure aborts the statement and rolls the transaction back. \<open>NotFound\<close> and
  \<open>WouldViolateInvariant\<close> are the two exceptions raised by the guarded deletions;
  \<open>ConstraintViolation\<close> is a failed CHECK, primary-key or foreign-key constraint;
  \<open>IntegerOutOfRange\<close> is an \<^verbatim>\<open>integer\<close> result that does not fit 32 bits;
  \<open>NegativeLimitOffset\<close> is a negative LIMIT or OFFSET.
\<close>

datatype error =
  NotFound | WouldViolateInvariant | ConstraintViolation | IntegerOutOfRange
  | NegativeLimitOffset

definition ebind :: "error + 'a \<Rightarrow> ('a \<Rightarrow> error + 'b) \<Rightarrow> error + 'b" where
  "ebind m f = (case m of Inl e \<Rightarrow> Inl e | Inr x \<Rightarrow> f x)"

definition int4 :: "int \<Rightarrow> error + int" where
  "int4 x = (if - 2147483648 \<le> x \<and> x \<le> 2147483647 then Inr x else Inl IntegerOutOfRange)"

text \<open>The operation and the OLD and NEW rows a row trigger is fired with.\<close>

datatype 'r tg_op = INSERT 'r | UPDATE 'r 'r | DELETE 'r

section \<open>Statements on the tables\<close>

text \<open>\<^verbatim>\<open>SELECT ... FROM t WHERE id = k\<close>: the row with key \<open>k\<close>, if any.\<close>

definition select_by_id :: "(uuid \<times> 'r) list \<Rightarrow> uuid \<Rightarrow> 'r option" where
  "select_by_id t k = map_of t k"

text \<open>\<^verbatim>\<open>DELETE FROM t WHERE id = k\<close>.\<close>

definition delete_by_id :: "uuid \<Rightarrow> (uuid \<times> 'r) list \<Rightarrow> (uuid \<times> 'r) list" where
  "delete_by_id k t = filter (\<lambda>row. fst row \<noteq> k) t"

text \<open>
  \<^verbatim>\<open>UPDATE products SET stock_quantity = e WHERE id = k\<close>, where \<open>f\<close> computes \<open>e\<close> from
  the row's current stock in 32-bit arithmetic. The new value of every updated row is
  checked against \<^verbatim>\<open>products_stock_quantity_check CHECK (stock_quantity >= 0)\<close>.
\<close>

fun update_stock :: "(int \<Rightarrow> error + int) \<Rightarrow> uuid \<Rightarrow> (uuid \<times> product) list
    \<Rightarrow> error + (uuid \<times> product) list" where
  "update_stock f k [] = Inr []"
| "update_stock f k ((k', p) # t) =
     (if k' = k then
        ebind (f (stock_quantity p)) (\<lambda>q.
          if q \<ge> 0 then
            ebind (update_stock f k t) (\<lambda>t'. Inr ((k', p\<lparr>stock_quantity := q\<rparr>) # t'))
          else Inl ConstraintViolation)
      else ebind (update_stock f k t) (\<lambda>t'. Inr ((k', p) # t')))"

definition update_products_stock :: "(int \<Rightarrow> error + int) \<Rightarrow> uuid \<Rightarrow> db \<Rightarrow> error + db" where
  "update_products_stock f k s =
     ebind (update_stock f k (products s)) (\<lambda>t. Inr (s\<lparr>products := t\<rparr>))"

section \<open>Triggers\<close>

text \<open>
  \<^verbatim>\<open>update_stock_on_purchase\<close>, fired after each insert, update or delete of a row of
  \<^verbatim>\<open>purchases\<close>. The UPDATE branch adjusts the product of the NEW row only.
\<close>

fun update_stock_on_purchase :: "purchase tg_op \<Rightarrow> db \<Rightarrow> error + db" where
  "update_stock_on_purchase (INSERT new) s =
     update_products_stock (\<lambda>q. int4 (q + pu_quantity new)) (pu_product_id new) s"
| "update_stock_on_purchase (UPDATE old new) s =
     update_products_stock
       (\<lambda>q. ebind (int4 (q - pu_quantity old)) (\<lambda>q'. int4 (q' + pu_quantity new)))
       (pu_product_id new) s"
| "update_stock_on_purchase (DELETE old) s =
     update_products_stock (\<lambda>q. int4 (q - pu_quantity old)) (pu_product_id old) s"

text \<open>
  \<^verbatim>\<open>update_stock_on_sale\<close>, fired after each insert, update or delete of a row of
  \<^verbatim>\<open>invoice_items\<close>.
\<close>

fun update_stock_on_sale :: "invoice_item tg_op \<Rightarrow> db \<Rightarrow> error + db" where
  "update_stock_on_sale (INSERT new) s =
     update_products_stock (\<lambda>q. int4 (q - ii_quantity new)) (ii_product_id new) s"
| "update_stock_on_sale (DELETE old) s =
     update_products_stock (\<lambda>q. int4 (q + ii_quantity old)) (ii_product_id old) s"
| "update_stock_on_sale (UPDATE old new) s =
     (if ii_product_id old \<noteq> ii_product_id new then
        ebind (update_products_stock (\<lambda>q. int4 (q + ii_quantity old)) (ii_product_id old) s)
          (update_products_stock (\<lambda>q. int4 (q - ii_quantity new)) (ii_product_id new))
      else
        update_products_stock
          (\<lambda>q. ebind (int4 (q + ii_quantity old)) (\<lambda>q'. int4 (q' - ii_quantity new)))
          (ii_product_id new) s)"

text \<open>
  \<^verbatim>\<open>recalculate_invoice_total\<close>: the sum
  \<^verbatim>\<open>COALESCE(SUM(quantity * unit_price * (1 + tax_rate)), 0)\<close> over the items of an invoice,
  written to every invoice row with that id.
\<close>

definition line_amount :: "invoice_item \<Rightarrow> rat" where
  "line_amount it = of_int (ii_quantity it) * ii_unit_price it * (1 + ii_tax_rate it)"

definition items_total :: "db \<Rightarrow> uuid \<Rightarrow> rat" where
  "items_total s i =
     sum_list (map (\<lambda>row. line_amount (snd row))
       (filter (\<lambda>row. ii_invoice_id (snd row) = i) (invoice_items s)))"

definition set_invoice_total :: "uuid \<Rightarrow> db \<Rightarrow> db" where
  "set_invoice_total i s =
     s\<lparr>invoices :=
         map (\<lambda>row. if fst row = i then (fst row, (snd row)\<lparr>total_amount := items_total s i\<rparr>)
                    else row) (invoices s)\<rparr>"

fun recalculate_invoice_total :: "invoice_item tg_op \<Rightarrow> db \<Rightarrow> db" where
  "recalculate_invoice_total (DELETE old) s = set_invoice_total (ii_invoice_id old) s"
| "recalculate_invoice_total (INSERT new) s = set_invoice_total (ii_invoice_id new) s"
| "recalculate_invoice_total (UPDATE old new) s =
     (let s1 = set_invoice_total (ii_invoice_id new) s
      in if ii_invoice_id new \<noteq> ii_invoice_id old
         then set_invoice_total (ii_invoice_id old) s1 else s1)"

text \<open>
  Both triggers on \<^verbatim>\<open>invoice_items\<close> are AFTER row triggers; they fire in the order of
  their names, \<^verbatim>\<open>on_invoice_item_change_recalculate\<close> before \<^verbatim>\<open>on_sale_change\<close>.
\<close>

definition invoice_item_triggers :: "invoice_item tg_op \<Rightarrow> db \<Rightarrow> error + db" where
  "invoice_item_triggers ev s = update_stock_on_sale ev (recalculate_invoice_total ev s)"

section \<open>Mutations of purchases and invoice items\<close>

text \<open>
  A row is checked against its column type and CHECK constraints, then against the
  primary key, then against the foreign keys; after that the row triggers fire. A
  statement whose WHERE clause matches no row succeeds and changes nothing. The primary
  key of a row is not changed by an update. The trigger \<^verbatim>\<open>before_invoice_item_insert\<close>
  only fills the column \<^verbatim>\<open>user_id\<close>, which is not kept here.
\<close>

definition check_purchase :: "purchase \<Rightarrow> error + unit" where
  "check_purchase new =
     ebind (int4 (pu_quantity new)) (\<lambda>q.
       if q > 0 then Inr () else Inl ConstraintViolation)"

definition check_invoice_item :: "invoice_item \<Rightarrow> error + unit" where
  "check_invoice_item new =
     ebind (int4 (ii_quantity new)) (\<lambda>q.
       if q > 0 \<and> ii_unit_price new \<ge> 0 \<and> ii_tax_rate new \<ge> 0 \<and> ii_tax_rate new \<le> 1
       then Inr () else Inl ConstraintViolation)"

definition replace_by_id :: "uuid \<Rightarrow> 'r \<Rightarrow> (uuid \<times> 'r) list \<Rightarrow> (uuid \<times> 'r) list" where
  "replace_by_id k new t = map (\<lambda>row. if fst row = k then (k, new) else row) t"

definition insert_purchase :: "uuid \<Rightarrow> purchase \<Rightarrow> db \<Rightarrow> error + db" where
  "insert_purchase k new s =
     ebind (check_purchase new) (\<lambda>_.
       if select_by_id (purchases s) k \<noteq> None then Inl ConstraintViolation
       else if select_by_id (products s) (pu_product_id new) = None then Inl ConstraintViolation
       else update_stock_on_purchase (INSERT new) (s\<lparr>purchases := purchases s @ [(k, new)]\<rparr>))"

definition update_purchase :: "uuid \<Rightarrow> purchase \<Rightarrow> db \<Rightarrow> error + db" where
  "update_purchase k new s =
     (case select_by_id (purchases s) k of
        None \<Rightarrow> Inr s
      | Some old \<Rightarrow>
          ebind (check_purchase new) (\<lambda>_.
            if select_by_id (products s) (pu_product_id new) = None then Inl ConstraintViolation
            else update_stock_on_purchase (UPDATE old new)
                   (s\<lparr>purchases := replace_by_id k new (purchases s)\<rparr>)))"

definition delete_purchase :: "uuid \<Rightarrow> db \<Rightarrow> error + db" where
  "delete_purchase k s =
     (case select_by_id (purchases s) k of
        None \<Rightarrow> Inr s
      | Some old \<Rightarrow>
          update_stock_on_purchase (DELETE old) (s\<lparr>purchases := delete_by_id k (purchases s)\<rparr>))"

definition insert_invoice_item :: "uuid \<Rightarrow> invoice_item \<Rightarrow> db \<Rightarrow> error + db" where
  "insert_invoice_item k new s =
     ebind (check_invoice_item new) (\<lambda>_.
       if select_by_id (invoice_items s) k \<noteq> None then Inl ConstraintViolation
       else if select_by_id (invoices s) (ii_invoice_id new) = None then Inl ConstraintViolation
       else if select_by_id (products s) (ii_product_id new) = None then Inl ConstraintViolation
       else invoice_item_triggers (INSERT new)
              (s\<lparr>invoice_items := invoice_items s @ [(k, new)]\<rparr>))"

definition update_invoice_item :: "uuid \<Rightarrow> invoice_item \<Rightarrow> db \<Rightarrow> error + db" where
  "update_invoice_item k new s =
     (case select_by_id (invoice_items s) k of
        None \<Rightarrow> Inr s
      | Some old \<Rightarrow>
          ebind (check_invoice_item new) (\<lambda>_.
            if select_by_id (invoices s) (ii_invoice_id new) = None then Inl ConstraintViolation
            else if select_by_id (products s) (ii_product_id new) = None
              then Inl ConstraintViolation
            else invoice_item_triggers (UPDATE old new)
                   (s\<lparr>invoice_items := replace_by_id k new (invoice_items s)\<rparr>)))"

definition delete_invoice_item :: "uuid \<Rightarrow> db \<Rightarrow> error + db" where
  "delete_invoice_item k s =
     (case select_by_id (invoice_items s) k of
        None \<Rightarrow> Inr s
      | Some old \<Rightarrow>
          invoice_item_triggers (DELETE old)
            (s\<lparr>invoice_items := delete_by_id k (invoice_items s)\<rparr>))"

section \<open>The guarded deletions\<close>

text \<open>
  Deleting an invoice row deletes, through \<^verbatim>\<open>ON DELETE CASCADE\<close>, every item that
  references it; the row triggers of \<^verbatim>\<open>invoice_items\<close> then fire for each deleted item.
\<close>

fun fire_item_deletes :: "(uuid \<times> invoice_item) list \<Rightarrow> db \<Rightarrow> error + db" where
  "fire_item_deletes [] s = Inr s"
| "fire_item_deletes (row # rows) s =
     ebind (invoice_item_triggers (DELETE (snd row)) s) (fire_item_deletes rows)"

definition delete_invoice :: "uuid \<Rightarrow> db \<Rightarrow> error + bool \<times> db" where
  "delete_invoice i s =
     (case select_by_id (invoices s) i of
        None \<Rightarrow> Inr (False, s)
      | Some _ \<Rightarrow>
          ebind
            (fire_item_deletes
               (filter (\<lambda>row. ii_invoice_id (snd row) = i) (invoice_items s))
               (s\<lparr>invoices := delete_by_id i (invoices s),
                  invoice_items :=
                    filter (\<lambda>row. ii_invoice_id (snd row) \<noteq> i) (invoice_items s)\<rparr>))
            (\<lambda>s'. Inr (True, s')))"

definition delete_invoice_by_id :: "uuid \<Rightarrow> db \<Rightarrow> error + db" where
  "delete_invoice_by_id p_invoice_id s =
     ebind (delete_invoice p_invoice_id s) (\<lambda>r.
       if \<not> fst r then Inl NotFound else Inr (snd r))"

text \<open>
  In \<^verbatim>\<open>delete_purchase_safely\<close> the stock read for a missing product is NULL, and the
  comparison of NULL with 0 is not true: the deletion then goes ahead.
\<close>

definition delete_purchase_safely :: "uuid \<Rightarrow> db \<Rightarrow> error + db" where
  "delete_purchase_safely p_purchase_id s =
     (case select_by_id (purchases s) p_purchase_id of
        None \<Rightarrow> Inl NotFound
      | Some pu \<Rightarrow>
          (let v_product_id = pu_product_id pu;
               v_quantity = pu_quantity pu;
               v_current_stock = map_option stock_quantity (select_by_id (products s) v_product_id)
           in ebind
                (case v_current_stock of
                   None \<Rightarrow> Inr False
                 | Some c \<Rightarrow> ebind (int4 (c - v_quantity)) (\<lambda>d. Inr (d < 0)))
                (\<lambda>negative.
                   if negative then Inl WouldViolateInvariant
                   else delete_purchase p_purchase_id s)))"

section \<open>Transactions\<close>

text \<open>
  The mutations the core offers. Each runs in one transaction: on an error the state is
  the one before the call.
\<close>

datatype mutation =
  InsertPurchase uuid purchase
  | UpdatePurchase uuid purchase
  | DeletePurchase uuid
  | InsertInvoiceItem uuid invoice_item
  | UpdateInvoiceItem uuid invoice_item
  | DeleteInvoiceItem uuid
  | DeleteInvoiceById uuid
  | DeletePurchaseSafely uuid

fun apply_mutation :: "mutation \<Rightarrow> db \<Rightarrow> error + db" where
  "apply_mutation (InsertPurchase k new) s = insert_purchase k new s"
| "apply_mutation (UpdatePurchase k new) s = update_purchase k new s"
| "apply_mutation (DeletePurchase k) s = delete_purchase k s"
| "apply_mutation (InsertInvoiceItem k new) s = insert_invoice_item k new s"
| "apply_mutation (UpdateInvoiceItem k new) s = update_invoice_item k new s"
| "apply_mutation (DeleteInvoiceItem k) s = delete_invoice_item k s"
| "apply_mutation (DeleteInvoiceById k) s = delete_invoice_by_id k s"
| "apply_mutation (DeletePurchaseSafely k) s = delete_purchase_safely k s"

definition transaction :: "mutation \<Rightarrow> db \<Rightarrow> db" where
  "transaction m s = (case apply_mutation m s of Inl _ \<Rightarrow> s | Inr s' \<Rightarrow> s')"

fun run :: "mutation list \<Rightarrow> db \<Rightarrow> db" where
  "run [] s = s"
| "run (m # ms) s = run ms (transaction m s)"

section \<open>The combined report\<close>

text \<open>
  The rows of \<^verbatim>\<open>export_combined_report\<close>; \<^verbatim>\<open>get_combined_report\<close> returns the same
  columns and the \<^verbatim>\<open>transaction_id\<close>. The joins are inner joins on primary keys: an item
  whose invoice or product is missing yields no row. The arguments are taken to be not
  NULL. Text is compared byte by byte. An item's quantity is positive
  (\<^verbatim>\<open>invoice_items_quantity_check\<close>), so its negation fits the column type.
\<close>

record export_row =
  transaction_date :: date
  transaction_type :: string
  reference_number :: "string option"
  product_name :: string
  quantity_change :: int

record report_row = export_row +
  transaction_id :: uuid

definition sale_filter :: "string \<Rightarrow> date \<Rightarrow> date \<Rightarrow> date \<Rightarrow> bool" where
  "sale_filter ty st en d \<longleftrightarrow> (ty = ''all'' \<or> ty = ''sale'') \<and> st \<le> d \<and> d \<le> en"

definition purchase_filter :: "string \<Rightarrow> date \<Rightarrow> date \<Rightarrow> date \<Rightarrow> bool" where
  "purchase_filter ty st en d \<longleftrightarrow> (ty = ''all'' \<or> ty = ''purchase'') \<and> st \<le> d \<and> d \<le> en"

definition report_sales :: "db \<Rightarrow> date \<Rightarrow> date \<Rightarrow> string \<Rightarrow> report_row list" where
  "report_sales s st en ty =
     concat (map (\<lambda>ii.
       case select_by_id (invoices s) (ii_invoice_id (snd ii)) of
         None \<Rightarrow> []
       | Some i \<Rightarrow>
          (case select_by_id (products s) (ii_product_id (snd ii)) of
             None \<Rightarrow> []
           | Some p \<Rightarrow>
               if sale_filter ty st en (invoice_date i) then
                 [\<lparr>transaction_date = invoice_date i, transaction_type = ''Sale'',
                   reference_number = Some (invoice_number i), product_name = p_name p,
                   quantity_change = - ii_quantity (snd ii), transaction_id = fst ii\<rparr>]
               else [])) (invoice_items s))"

definition report_purchases :: "db \<Rightarrow> date \<Rightarrow> date \<Rightarrow> string \<Rightarrow> report_row list" where
  "report_purchases s st en ty =
     concat (map (\<lambda>pu.
       case select_by_id (products s) (pu_product_id (snd pu)) of
         None \<Rightarrow> []
       | Some p \<Rightarrow>
           if purchase_filter ty st en (purchase_date (snd pu)) then
             [\<lparr>transaction_date = purchase_date (snd pu), transaction_type = ''Purchase'',
               reference_number = reference_invoice (snd pu), product_name = p_name p,
               quantity_change = pu_quantity (snd pu), transaction_id = fst pu\<rparr>]
           else []) (purchases s))"

definition export_sales :: "db \<Rightarrow> date \<Rightarrow> date \<Rightarrow> string \<Rightarrow> export_row list" where
  "export_sales s st en ty =
     concat (map (\<lambda>ii.
       case select_by_id (invoices s) (ii_invoice_id (snd ii)) of
         None \<Rightarrow> []
       | Some i \<Rightarrow>
          (case select_by_id (products s) (ii_product_id (snd ii)) of
             None \<Rightarrow> []
           | Some p \<Rightarrow>
               if sale_filter ty st en (invoice_date i) then
                 [\<lparr>transaction_date = invoice_date i, transaction_type = ''Sale'',
                   reference_number = Some (invoice_number i), product_name = p_name p,
                   quantity_change = - ii_quantity (snd ii)\<rparr>]
               else [])) (invoice_items s))"

definition export_purchases :: "db \<Rightarrow> date \<Rightarrow> date \<Rightarrow> string \<Rightarrow> export_row list" where
  "export_purchases s st en ty =
     concat (map (\<lambda>pu.
       case select_by_id (products s) (pu_product_id (snd pu)) of
         None \<Rightarrow> []
       | Some p \<Rightarrow>
           if purchase_filter ty st en (purchase_date (snd pu)) then
             [\<lparr>transaction_date = purchase_date (snd pu), transaction_type = ''Purchase'',
               reference_number = reference_invoice (snd pu), product_name = p_name p,
               quantity_change = pu_quantity (snd pu)\<rparr>]
           else []) (purchases s))"

text \<open>
  \<^verbatim>\<open>ORDER BY transaction_date DESC, product_name ASC\<close>. The store leaves the order of
  rows that tie on both columns open; the model keeps them in the order of the union
  (a stable sort).
\<close>

definition order_key :: "'a export_row_scheme \<Rightarrow> int \<times> string" where
  "order_key r = (- transaction_date r, product_name r)"

definition order_by :: "'a export_row_scheme list \<Rightarrow> 'a export_row_scheme list" where
  "order_by rows = sort_key order_key rows"

text \<open>\<^verbatim>\<open>LIMIT l OFFSET off\<close>: a negative count is an error.\<close>

definition limit_offset :: "int \<Rightarrow> int \<Rightarrow> 'a list \<Rightarrow> error + 'a list" where
  "limit_offset l off rows =
     (if off < 0 \<or> l < 0 then Inl NegativeLimitOffset
      else Inr (take (nat l) (drop (nat off) rows)))"

definition get_combined_report ::
    "db \<Rightarrow> date \<Rightarrow> date \<Rightarrow> string \<Rightarrow> int \<Rightarrow> int \<Rightarrow> error + report_row list" where
  "get_combined_report s p_start_date p_end_date p_transaction_type p_limit p_offset =
     limit_offset p_limit p_offset
       (order_by (report_sales s p_start_date p_end_date p_transaction_type
                  @ report_purchases s p_start_date p_end_date p_transaction_type))"

definition export_combined_report :: "db \<Rightarrow> date \<Rightarrow> date \<Rightarrow> string \<Rightarrow> export_row list" where
  "export_combined_report s p_start_date p_end_date p_transaction_type =
     order_by (export_sales s p_start_date p_end_date p_transaction_type
               @ export_purchases s p_start_date p_end_date p_transaction_type)"

text \<open>
  \<^verbatim>\<open>get_combined_report_count\<close> joins the items with their invoices only and does not join
  the purchases with anything. The function stores the 64-bit \<^verbatim>\<open>count(*)\<close> in an
  \<^verbatim>\<open>integer\<close> variable; a table here is a list of any length and the count is a length, so
  a store with more than 2147483647 matching rows is outside the model.
\<close>

definition count_sales :: "db \<Rightarrow> date \<Rightarrow> date \<Rightarrow> string \<Rightarrow> unit list" where
  "count_sales s st en ty =
     concat (map (\<lambda>ii.
       case select_by_id (invoices s) (ii_invoice_id (snd ii)) of
         None \<Rightarrow> []
       | Some i \<Rightarrow> if sale_filter ty st en (invoice_date i) then [()] else [])
       (invoice_items s))"

definition count_purchases :: "db \<Rightarrow> date \<Rightarrow> date \<Rightarrow> string \<Rightarrow> unit list" where
  "count_purchases s st en ty =
     concat (map (\<lambda>pu. if purchase_filter ty st en (purchase_date (snd pu)) then [()] else [])
       (purchases s))"

definition get_combined_report_count :: "db \<Rightarrow> date \<Rightarrow> date \<Rightarrow> string \<Rightarrow> int" where
  "get_combined_report_count s p_start_date p_end_date p_transaction_type =
     int (length (count_sales s p_start_date p_end_date p_transaction_type
                  @ count_purchases s p_start_date p_end_date p_transaction_type))"

section \<open>The constraints of the schema as a predicate on states\<close>

definition int4_range :: "int \<Rightarrow> bool" where
  "int4_range x \<longleftrightarrow> - 2147483648 \<le> x \<and> x \<le> 2147483647"

definition pkeys_ok :: "db \<Rightarrow> bool" where
  "pkeys_ok s \<longleftrightarrow>
     distinct (map fst (products s)) \<and> distinct (map fst (purchases s)) \<and>
     distinct (map fst (invoices s)) \<and> distinct (map fst (invoice_items s))"

definition checks_ok :: "db \<Rightarrow> bool" where
  "checks_ok s \<longleftrightarrow>
     list_all (\<lambda>row. int4_range (stock_quantity (snd row)) \<and> stock_quantity (snd row) \<ge> 0)
       (products s) \<and>
     list_all (\<lambda>row. int4_range (pu_quantity (snd row)) \<and> pu_quantity (snd row) > 0)
       (purchases s) \<and>
     list_all (\<lambda>row. int4_range (ii_quantity (snd row)) \<and> ii_quantity (snd row) > 0 \<and>
                 ii_unit_price (snd row) \<ge> 0 \<and>
                 ii_tax_rate (snd row) \<ge> 0 \<and> ii_tax_rate (snd row) \<le> 1)
       (invoice_items s)"

definition fkeys_ok :: "db \<Rightarrow> bool" where
  "fkeys_ok s \<longleftrightarrow>
     list_all (\<lambda>row. select_by_id (products s) (pu_product_id (snd row)) \<noteq> None)
       (purchases s) \<and>
     list_all (\<lambda>row. select_by_id (invoices s) (ii_invoice_id (snd row)) \<noteq> None \<and>
                 select_by_id (products s) (ii_product_id (snd row)) \<noteq> None)
       (invoice_items s)"

definition valid_db :: "db \<Rightarrow> bool" where
  "valid_db s \<longleftrightarrow> pkeys_ok s \<and> checks_ok s \<and> fkeys_ok s"

section \<open>The stock ledger and the invoice totals as predicates on states\<close>

definition purchased :: "db \<Rightarrow> uuid \<Rightarrow> int" where
  "purchased s k =
     sum_list (map (\<lambda>row. pu_quantity (snd row))
       (filter (\<lambda>row. pu_product_id (snd row) = k) (purchases s)))"

definition sold :: "db \<Rightarrow> uuid \<Rightarrow> int" where
  "sold s k =
     sum_list (map (\<lambda>row. ii_quantity (snd row))
       (filter (\<lambda>row. ii_product_id (snd row) = k) (invoice_items s)))"

definition ledger_ok :: "db \<Rightarrow> bool" where
  "ledger_ok s \<longleftrightarrow>
     list_all (\<lambda>row. stock_quantity (snd row) = purchased s (fst row) - sold s (fst row))
       (products s)"

definition stock_nonneg :: "db \<Rightarrow> bool" where
  "stock_nonneg s \<longleftrightarrow> list_all (\<lambda>row. stock_quantity (snd row) \<ge> 0) (products s)"

definition stock_of :: "db \<Rightarrow> uuid \<Rightarrow> int option" where
  "stock_of s k = map_option stock_quantity (select_by_id (products s) k)"


text \<open>The quantity of product \<open>j\<close> on the items \<open>rows\<close>.\<close>

definition sold_on :: "(uuid \<times> invoice_item) list \<Rightarrow> uuid \<Rightarrow> int" where
  "sold_on rows j =
     sum_list (map (\<lambda>row. ii_quantity (snd row))
       (filter (\<lambda>row. ii_product_id (snd row) = j) rows))"

definition items_of :: "db \<Rightarrow> uuid \<Rightarrow> (uuid \<times> invoice_item) list" where
  "items_of s i = filter (\<lambda>row. ii_invoice_id (snd row) = i) (invoice_items s)"

text \<open>The columns of a row of \<^verbatim>\<open>get_combined_report\<close> that \<^verbatim>\<open>export_combined_report\<close> has too.\<close>

definition shared_columns :: "report_row \<Rightarrow> export_row" where
  "shared_columns r =
     \<lparr>transaction_date = transaction_date r, transaction_type = transaction_type r,
      reference_number = reference_number r, product_name = product_name r,
      quantity_change = quantity_change r\<rparr>"

text \<open>An update of a purchase row that changes the product the row references.\<close>

definition changes_purchase_product :: "mutation \<Rightarrow> db \<Rightarrow> bool" where
  "changes_purchase_product m s =
     (case m of
        UpdatePurchase k new \<Rightarrow>
          (case select_by_id (purchases s) k of
             None \<Rightarrow> False
           | Some old \<Rightarrow> pu_product_id new \<noteq> pu_product_id old)
      | _ \<Rightarrow> False)"

section \<open>Example states\<close>

text \<open>
  A shop with two products. Urea: 15 bought, 4 sold, 11 in stock. DAP: 10 bought, 8 sold
  on one invoice in two items of 3 and 5, 2 in stock.
\<close>

definition shop_db :: db where
  "shop_db =
     \<lparr>products =
        [(1, \<lparr>p_name = ''Urea'', stock_quantity = 11, p_unit_price = 250, p_tax_rate = 1 / 20\<rparr>),
         (2, \<lparr>p_name = ''DAP'', stock_quantity = 2, p_unit_price = 1200, p_tax_rate = 1 / 20\<rparr>)],
      purchases =
        [(1, \<lparr>pu_product_id = 1, purchase_date = 10, reference_invoice = Some ''PO-1'',
               pu_quantity = 10\<rparr>),
         (2, \<lparr>pu_product_id = 2, purchase_date = 12, reference_invoice = None,
               pu_quantity = 10\<rparr>),
         (3, \<lparr>pu_product_id = 1, purchase_date = 12, reference_invoice = Some ''PO-3'',
               pu_quantity = 5\<rparr>)],
      invoices =
        [(1, \<lparr>invoice_number = ''INV-1'', invoice_date = 11, total_amount = 1050\<rparr>),
         (2, \<lparr>invoice_number = ''INV-2'', invoice_date = 12, total_amount = 10080\<rparr>)],
      invoice_items =
        [(1, \<lparr>ii_invoice_id = 1, ii_product_id = 1, ii_quantity = 4, ii_unit_price = 250,
               ii_tax_rate = 1 / 20\<rparr>),
         (2, \<lparr>ii_invoice_id = 2, ii_product_id = 2, ii_quantity = 3, ii_unit_price = 1200,
               ii_tax_rate = 1 / 20\<rparr>),
         (3, \<lparr>ii_invoice_id = 2, ii_product_id = 2, ii_quantity = 5, ii_unit_price = 1200,
               ii_tax_rate = 1 / 20\<rparr>)]\<rparr>"

text \<open>The same shop before any purchase or sale: two products with no stock, one invoice.\<close>

definition fresh_db :: db where
  "fresh_db =
     \<lparr>products =
        [(1, \<lparr>p_name = ''Urea'', stock_quantity = 0, p_unit_price = 250, p_tax_rate = 1 / 20\<rparr>),
         (2, \<lparr>p_name = ''DAP'', stock_quantity = 0, p_unit_price = 1200, p_tax_rate = 1 / 20\<rparr>)],
      purchases = [],
      invoices = [(1, \<lparr>invoice_number = ''INV-1'', invoice_date = 11, total_amount = 0\<rparr>)],
      invoice_items = []\<rparr>"

text \<open>
  Three mutations on the shop before any purchase: 2147483647 Urea bought, 1 sold on
  invoice 1, 1 more bought. Each succeeds, and the stock of Urea is then 2147483647.
\<close>

definition overstock_steps :: "mutation list" where
  "overstock_steps =
     [InsertPurchase 1
        \<lparr>pu_product_id = 1, purchase_date = 10, reference_invoice = None,
           pu_quantity = 2147483647\<rparr>,
      InsertInvoiceItem 1
        \<lparr>ii_invoice_id = 1, ii_product_id = 1, ii_quantity = 1, ii_unit_price = 250,
           ii_tax_rate = 1 / 20\<rparr>,
      InsertPurchase 2
        \<lparr>pu_product_id = 1, purchase_date = 10, reference_invoice = None,
           pu_quantity = 1\<rparr>]"

text \<open>
  Two mutations on the shop before any purchase: 10 Urea bought, then the purchase row
  changed to name DAP.
\<close>

definition relabel_steps :: "mutation list" where
  "relabel_steps =
     [InsertPurchase 1
        \<lparr>pu_product_id = 1, purchase_date = 10, reference_invoice = None, pu_quantity = 10\<rparr>,
      UpdatePurchase 1
        \<lparr>pu_product_id = 2, purchase_date = 10, reference_invoice = None, pu_quantity = 10\<rparr>]"

section \<open>Facts about the statements and triggers\<close>

subsection \<open>Errors and 32-bit integers\<close>

lemma ebind_Inl [simp]: "ebind (Inl e) f = Inl e"
  by (simp add: ebind_def)

lemma ebind_Inr [simp]: "ebind (Inr x) f = f x"
  by (simp add: ebind_def)

lemma ebind_eq_Inr: "ebind m f = Inr y \<longleftrightarrow> (\<exists>x. m = Inr x \<and> f x = Inr y)"
  by (cases m) simp_all

lemma int4_eq_Inr: "int4 x = Inr y \<longleftrightarrow> y = x \<and> int4_range x"
  by (auto simp: int4_def int4_range_def)

lemma int4_in_range: "int4_range x \<Longrightarrow> int4 x = Inr x"
  by (simp add: int4_def int4_range_def)

subsection \<open>Updates of the stock column\<close>

text \<open>What a successful stock update leaves in the table.\<close>

lemma update_stock_Inr:
  "update_stock f k t = Inr t' \<Longrightarrow>
     t' = map (\<lambda>row. if fst row = k
                 then (fst row, (snd row)\<lparr>stock_quantity := projr (f (stock_quantity (snd row)))\<rparr>)
                 else row) t
     \<and> (\<forall>row \<in> set t. fst row = k \<longrightarrow>
           (\<exists>q. f (stock_quantity (snd row)) = Inr q \<and> q \<ge> 0))"
proof (induction t arbitrary: t')
  case Nil
  then show ?case by simp
next
  case (Cons row t)
  obtain k' p where row: "row = (k', p)" by (cases row)
  from Cons.prems row obtain u where u: "update_stock f k t = Inr u"
    by (auto simp: ebind_eq_Inr split: if_splits)
  note ih = Cons.IH [OF u]
  show ?case
  proof (cases "k' = k")
    case True
    with Cons.prems row u obtain q where "f (stock_quantity p) = Inr q" "q \<ge> 0"
        "t' = (k', p\<lparr>stock_quantity := q\<rparr>) # u"
      by (auto simp: ebind_eq_Inr split: if_splits)
    with ih row True show ?thesis by simp
  next
    case False
    with Cons.prems row u have "t' = (k', p) # u" by simp
    with ih row False show ?thesis by simp
  qed
qed

lemma update_stock_keys: "update_stock f k t = Inr t' \<Longrightarrow> map fst t' = map fst t"
  by (drule update_stock_Inr) (auto simp: comp_def intro!: map_cong)


lemma update_stock_absent:
  "k \<notin> fst ` set t \<Longrightarrow> update_stock f k t = Inr t"
  by (induction t) auto

lemma update_stock_present:
  assumes "distinct (map fst t)" and "map_of t k = Some p"
    and "f (stock_quantity p) = Inr q" and "q \<ge> 0"
  shows "update_stock f k t =
           Inr (map (\<lambda>row. if fst row = k then (k, p\<lparr>stock_quantity := q\<rparr>) else row) t)"
  using assms
proof (induction t)
  case Nil
  then show ?case by simp
next
  case (Cons row t)
  obtain k' p' where row: "row = (k', p')" by (cases row)
  show ?case
  proof (cases "k' = k")
    case True
    with Cons.prems row have "p' = p" and "k \<notin> fst ` set t" by auto
    then have "update_stock f k t = Inr t"
      by (simp add: update_stock_absent)
    moreover from \<open>k \<notin> fst ` set t\<close>
    have "map (\<lambda>row. if fst row = k then (k, p\<lparr>stock_quantity := q\<rparr>) else row) t = t"
      by (intro map_idI) auto
    ultimately show ?thesis using True row \<open>p' = p\<close> Cons.prems(3,4) by simp
  next
    case False
    with Cons.prems row have "map_of t k = Some p" "distinct (map fst t)" by auto
    from Cons.IH [OF this(2,1) Cons.prems(3,4)] False row show ?thesis by simp
  qed
qed

lemma update_products_stock_Inr:
  "update_products_stock f k s = Inr s' \<longleftrightarrow>
     (\<exists>t. update_stock f k (products s) = Inr t \<and> s' = s\<lparr>products := t\<rparr>)"
  by (auto simp: update_products_stock_def ebind_eq_Inr)

subsection \<open>No stock goes below zero\<close>

lemma products_set_invoice_total [simp]: "products (set_invoice_total i s) = products s"
  by (simp add: set_invoice_total_def)

lemma products_recalculate [simp]: "products (recalculate_invoice_total ev s) = products s"
  by (cases ev) (simp_all add: Let_def)






lemma stock_nonneg_frame [simp]:
  "stock_nonneg (s\<lparr>purchases := pu\<rparr>) = stock_nonneg s"
  "stock_nonneg (s\<lparr>invoices := iv\<rparr>) = stock_nonneg s"
  "stock_nonneg (s\<lparr>invoice_items := ii\<rparr>) = stock_nonneg s"
  by (simp_all add: stock_nonneg_def)





subsection \<open>An insert that oversells\<close>

lemma update_stock_first_Inl:
  "map_of t k = Some p \<Longrightarrow> f (stock_quantity p) = Inl e \<Longrightarrow> update_stock f k t = Inl e"
  by (induction t) (auto split: if_splits)

lemma update_stock_first_negative:
  "map_of t k = Some p \<Longrightarrow> f (stock_quantity p) = Inr q \<Longrightarrow> q < 0 \<Longrightarrow>
     update_stock f k t = Inl ConstraintViolation"
  by (induction t) (auto split: if_splits)

lemma map_of_replace_row:
  "map_of (map (\<lambda>row. if fst row = k then (k, v) else row) t) j =
     (if j = k then map_option (\<lambda>_. v) (map_of t k) else map_of t j)"
  by (induction t) auto

lemma invoice_item_triggers_INSERT:
  "invoice_item_triggers (INSERT new) s =
     update_products_stock (\<lambda>q. int4 (q - ii_quantity new)) (ii_product_id new)
       (set_invoice_total (ii_invoice_id new) s)"
  by (simp add: invoice_item_triggers_def)

lemma sale_insert_oversell:
  assumes "select_by_id (products s) (ii_product_id new) = Some p"
    and "stock_quantity p < ii_quantity new"
  shows "\<exists>e. invoice_item_triggers (INSERT new) s = Inl e"
proof (cases "int4 (stock_quantity p - ii_quantity new)")
  case (Inl e)
  with assms(1) have "update_stock (\<lambda>q. int4 (q - ii_quantity new)) (ii_product_id new)
      (products s) = Inl e"
    by (intro update_stock_first_Inl [where p = p]) (simp_all add: select_by_id_def)
  then show ?thesis
    by (simp add: invoice_item_triggers_INSERT update_products_stock_def)
next
  case (Inr q)
  with assms(2) have "q < 0" by (simp add: int4_eq_Inr)
  with Inr assms(1) have "update_stock (\<lambda>q. int4 (q - ii_quantity new)) (ii_product_id new)
      (products s) = Inl ConstraintViolation"
    by (intro update_stock_first_negative [where p = p and q = q])
      (simp_all add: select_by_id_def)
  then show ?thesis
    by (simp add: invoice_item_triggers_INSERT update_products_stock_def)
qed

lemma insert_invoice_item_oversell:
  assumes "select_by_id (products s) (ii_product_id new) = Some p"
    and "stock_quantity p < ii_quantity new"
  shows "\<exists>e. insert_invoice_item k new s = Inl e"
proof -
  let ?s1 = "s\<lparr>invoice_items := invoice_items s @ [(k, new)]\<rparr>"
  from assms have "\<exists>e. invoice_item_triggers (INSERT new) ?s1 = Inl e"
    by (intro sale_insert_oversell [where p = p]) simp_all
  then show ?thesis
    unfolding insert_invoice_item_def
    by (cases "check_invoice_item new") auto
qed

lemma check_invoice_item_error:
  "int4_range (ii_quantity new) \<Longrightarrow> check_invoice_item new = Inl e \<Longrightarrow> e = ConstraintViolation"
  by (auto simp: check_invoice_item_def int4_in_range split: if_splits)

lemma insert_invoice_item_oversell_error:
  assumes "select_by_id (products s) (ii_product_id new) = Some p"
    and "stock_quantity p < ii_quantity new"
    and "0 \<le> stock_quantity p" and "int4_range (ii_quantity new)"
  shows "insert_invoice_item k new s = Inl ConstraintViolation"
proof -
  let ?s1 = "s\<lparr>invoice_items := invoice_items s @ [(k, new)]\<rparr>"
  from assms(2-4) have "int4_range (stock_quantity p - ii_quantity new)"
    by (simp add: int4_range_def)
  then have "int4 (stock_quantity p - ii_quantity new) = Inr (stock_quantity p - ii_quantity new)"
    by (rule int4_in_range)
  moreover from assms(2) have "stock_quantity p - ii_quantity new < 0" by simp
  moreover from assms(1) have "map_of (products s) (ii_product_id new) = Some p"
    by (simp add: select_by_id_def)
  ultimately have "update_stock (\<lambda>q. int4 (q - ii_quantity new)) (ii_product_id new)
      (products s) = Inl ConstraintViolation"
    by (intro update_stock_first_negative [where p = p])
  then have t: "invoice_item_triggers (INSERT new) ?s1 = Inl ConstraintViolation"
    by (simp add: invoice_item_triggers_INSERT update_products_stock_def)
  show ?thesis
  proof (cases "check_invoice_item new")
    case (Inl e)
    with assms(4) have "e = ConstraintViolation" by (auto dest: check_invoice_item_error)
    with Inl show ?thesis by (simp add: insert_invoice_item_def)
  next
    case (Inr u)
    with t show ?thesis by (simp add: insert_invoice_item_def)
  qed
qed

subsection \<open>Deleting a purchase\<close>

lemma select_by_id_in_set: "select_by_id t k = Some r \<Longrightarrow> (k, r) \<in> set t"
  by (simp add: select_by_id_def map_of_SomeD)

lemma valid_purchase_row:
  assumes "valid_db s" and "select_by_id (purchases s) k = Some pu"
  shows "int4_range (pu_quantity pu) \<and> 0 < pu_quantity pu \<and>
         (\<exists>p. select_by_id (products s) (pu_product_id pu) = Some p)"
proof -
  from assms(2) have "(k, pu) \<in> set (purchases s)" by (rule select_by_id_in_set)
  with assms(1) show ?thesis
    by (auto simp: valid_db_def checks_ok_def fkeys_ok_def list_all_iff)
qed

lemma valid_product_row:
  assumes "valid_db s" and "select_by_id (products s) j = Some p"
  shows "int4_range (stock_quantity p) \<and> 0 \<le> stock_quantity p"
proof -
  from assms(2) have "(j, p) \<in> set (products s)" by (rule select_by_id_in_set)
  with assms(1) show ?thesis
    by (auto simp: valid_db_def checks_ok_def list_all_iff)
qed

lemma delete_by_id_absent: "select_by_id (delete_by_id k t) k = None"
  by (induction t) (auto simp: select_by_id_def delete_by_id_def)

lemma update_products_stock_present:
  assumes "distinct (map fst (products s))" and "select_by_id (products s) j = Some p"
    and "f (stock_quantity p) = Inr q" and "0 \<le> q"
  shows "update_products_stock f j s =
           Inr (s\<lparr>products :=
                    map (\<lambda>row. if fst row = j then (j, p\<lparr>stock_quantity := q\<rparr>) else row)
                      (products s)\<rparr>)"
  using assms
  by (simp add: update_products_stock_def select_by_id_def update_stock_present)

lemma delete_purchase_present:
  assumes "valid_db s" and "select_by_id (purchases s) k = Some pu"
    and "stock_of s (pu_product_id pu) = Some c" and "0 \<le> c - pu_quantity pu"
  shows "\<exists>s'. delete_purchase k s = Inr s' \<and>
           purchases s' = delete_by_id k (purchases s) \<and>
           invoices s' = invoices s \<and> invoice_items s' = invoice_items s \<and>
           (\<forall>i. stock_of s' i =
                  (if i = pu_product_id pu then Some (c - pu_quantity pu) else stock_of s i))"
proof -
  let ?j = "pu_product_id pu"
  let ?s1 = "s\<lparr>purchases := delete_by_id k (purchases s)\<rparr>"
  from assms(3) obtain p where p: "select_by_id (products s) ?j = Some p"
    and c: "stock_quantity p = c"
    by (auto simp: stock_of_def)
  from valid_product_row [OF assms(1) p] c have cr: "int4_range c" "0 \<le> c" by simp_all
  from valid_purchase_row [OF assms(1,2)] have qr: "0 < pu_quantity pu" by simp
  from cr qr assms(4) have "int4_range (c - pu_quantity pu)" by (simp add: int4_range_def)
  then have f: "int4 (stock_quantity p - pu_quantity pu) = Inr (c - pu_quantity pu)"
    using c by (simp add: int4_in_range)
  from assms(1) have d: "distinct (map fst (products ?s1))"
    by (simp add: valid_db_def pkeys_ok_def)
  from p have p1: "select_by_id (products ?s1) ?j = Some p" by simp
  let ?s' = "?s1\<lparr>products :=
      map (\<lambda>row. if fst row = ?j then (?j, p\<lparr>stock_quantity := c - pu_quantity pu\<rparr>) else row)
        (products ?s1)\<rparr>"
  have "update_products_stock (\<lambda>q. int4 (q - pu_quantity pu)) ?j ?s1 = Inr ?s'"
    using d p1 f assms(4)
    by (rule update_products_stock_present
        [where f = "\<lambda>q. int4 (q - pu_quantity pu)" and s = ?s1 and p = p])
  with assms(2) have "delete_purchase k s = Inr ?s'"
    by (simp add: delete_purchase_def)
  moreover have "\<forall>i. stock_of ?s' i =
      (if i = ?j then Some (c - pu_quantity pu) else stock_of s i)"
    using p by (simp add: stock_of_def select_by_id_def map_of_replace_row)
  ultimately show ?thesis by simp
qed

subsection \<open>Recalculating invoice totals\<close>

lemma invoice_items_set_invoice_total [simp]:
  "invoice_items (set_invoice_total i s) = invoice_items s"
  by (simp add: set_invoice_total_def)

lemma purchases_set_invoice_total [simp]:
  "purchases (set_invoice_total i s) = purchases s"
  by (simp add: set_invoice_total_def)

lemma items_total_set_invoice_total [simp]:
  "items_total (set_invoice_total j s) i = items_total s i"
  by (simp add: items_total_def)





lemma invoice_items_recalculate [simp]:
  "invoice_items (recalculate_invoice_total ev s) = invoice_items s"
  by (cases ev) (simp_all add: Let_def)





subsection \<open>The cascade of an invoice deletion\<close>

lemma update_stock_all:
  assumes "\<forall>row \<in> set t. fst row = k \<longrightarrow>
             (\<exists>q. f (stock_quantity (snd row)) = Inr q \<and> 0 \<le> q)"
  shows "update_stock f k t =
           Inr (map (\<lambda>row. if fst row = k
                       then (fst row,
                             (snd row)\<lparr>stock_quantity := projr (f (stock_quantity (snd row)))\<rparr>)
                       else row) t)"
  using assms by (induction t) auto

lemma update_stock_some_Inl:
  assumes "\<forall>row \<in> set t. fst row = k \<longrightarrow>
             f (stock_quantity (snd row)) = Inl e \<or>
             (\<exists>q. f (stock_quantity (snd row)) = Inr q \<and> 0 \<le> q)"
    and "\<exists>row \<in> set t. fst row = k \<and> f (stock_quantity (snd row)) = Inl e"
  shows "update_stock f k t = Inl e"
  using assms
proof (induction t)
  case Nil
  then show ?case by simp
next
  case (Cons row t)
  obtain k' p where row: "row = (k', p)" by (cases row)
  show ?case
  proof (cases "k' = k \<and> f (stock_quantity p) = Inl e")
    case True
    with row show ?thesis by simp
  next
    case False
    with Cons.prems(2) row
    have ex: "\<exists>row \<in> set t. fst row = k \<and> f (stock_quantity (snd row)) = Inl e" by auto
    from Cons.prems(1) have "\<forall>row \<in> set t. fst row = k \<longrightarrow>
             f (stock_quantity (snd row)) = Inl e \<or>
             (\<exists>q. f (stock_quantity (snd row)) = Inr q \<and> 0 \<le> q)" by simp
    from Cons.IH [OF this ex] have t: "update_stock f k t = Inl e" .
    show ?thesis
    proof (cases "k' = k")
      case True
      with False Cons.prems(1) row obtain q where "f (stock_quantity p) = Inr q" "0 \<le> q"
        by auto
      with True row t show ?thesis by simp
    next
      case False
      with row t show ?thesis by simp
    qed
  qed
qed

lemma set_invoice_total_absent:
  assumes "select_by_id (invoices s) i = None"
  shows "set_invoice_total i s = s"
proof -
  from assms have "i \<notin> fst ` set (invoices s)"
    by (simp add: select_by_id_def map_of_eq_None_iff)
  then have "map (\<lambda>row. if fst row = i
                    then (fst row, (snd row)\<lparr>total_amount := items_total s i\<rparr>) else row)
               (invoices s) = invoices s"
    by (intro map_idI) auto
  then show ?thesis by (simp add: set_invoice_total_def)
qed

lemma sold_on_Nil [simp]: "sold_on [] j = 0"
  by (simp add: sold_on_def)

lemma sold_on_Cons:
  "sold_on (row # rows) j =
     (if j = ii_product_id (snd row) then ii_quantity (snd row) else 0) + sold_on rows j"
  by (simp add: sold_on_def)

lemma sold_on_nonneg: "\<forall>row \<in> set rows. 0 < ii_quantity (snd row) \<Longrightarrow> 0 \<le> sold_on rows j"
  by (induction rows) (auto simp: sold_on_Cons)


lemma int4_nonneg: "0 \<le> x \<Longrightarrow>
  int4 x = (if x \<le> 2147483647 then Inr x else Inl IntegerOutOfRange)"
  by (simp add: int4_def)

text \<open>
  One row of the cascade: with the invoice gone the recalculation changes nothing, and
  the stock of the item's product grows by the item's quantity, unless that leaves the
  32-bit range.
\<close>

lemma sale_delete_step:
  assumes st: "\<forall>row \<in> set (products s).
                 0 \<le> stock_quantity (snd row) \<and> stock_quantity (snd row) \<le> 2147483647"
    and q: "0 < ii_quantity old"
    and inv: "select_by_id (invoices s) (ii_invoice_id old) = None"
  shows "invoice_item_triggers (DELETE old) s =
     (if \<forall>row \<in> set (products s). fst row = ii_product_id old \<longrightarrow>
            stock_quantity (snd row) + ii_quantity old \<le> 2147483647
      then Inr (s\<lparr>products :=
                  map (\<lambda>row. (fst row,
                         (snd row)\<lparr>stock_quantity := stock_quantity (snd row) +
                            (if fst row = ii_product_id old then ii_quantity old else 0)\<rparr>))
                    (products s)\<rparr>)
      else Inl IntegerOutOfRange)"
proof -
  let ?f = "\<lambda>x. int4 (x + ii_quantity old)"
  let ?k = "ii_product_id old"
  have trig: "invoice_item_triggers (DELETE old) s =
      ebind (update_stock ?f ?k (products s)) (\<lambda>t. Inr (s\<lparr>products := t\<rparr>))"
    using inv by (simp add: invoice_item_triggers_def set_invoice_total_absent
        update_products_stock_def)
  have f: "?f (stock_quantity (snd row)) =
      (if stock_quantity (snd row) + ii_quantity old \<le> 2147483647
       then Inr (stock_quantity (snd row) + ii_quantity old) else Inl IntegerOutOfRange)"
    if "row \<in> set (products s)" for row
    using st q that by (intro int4_nonneg) (simp add: order_less_imp_le)
  show ?thesis
  proof (cases "\<forall>row \<in> set (products s). fst row = ?k \<longrightarrow>
            stock_quantity (snd row) + ii_quantity old \<le> 2147483647")
    case True
    have "\<forall>row \<in> set (products s). fst row = ?k \<longrightarrow>
             (\<exists>x. ?f (stock_quantity (snd row)) = Inr x \<and> 0 \<le> x)"
    proof (intro ballI impI)
      fix row assume r: "row \<in> set (products s)" "fst row = ?k"
      with True f [OF r(1)]
      have "?f (stock_quantity (snd row)) = Inr (stock_quantity (snd row) + ii_quantity old)"
        by simp
      moreover from st q r(1) have "0 \<le> stock_quantity (snd row) + ii_quantity old"
        by (simp add: order_less_imp_le)
      ultimately show "\<exists>x. ?f (stock_quantity (snd row)) = Inr x \<and> 0 \<le> x" by blast
    qed
    then have "update_stock ?f ?k (products s) =
        Inr (map (\<lambda>row. if fst row = ?k
                    then (fst row,
                          (snd row)\<lparr>stock_quantity := projr (?f (stock_quantity (snd row)))\<rparr>)
                    else row) (products s))"
      by (rule update_stock_all)
    also have "map (\<lambda>row. if fst row = ?k
                    then (fst row,
                          (snd row)\<lparr>stock_quantity := projr (?f (stock_quantity (snd row)))\<rparr>)
                    else row) (products s) =
        map (\<lambda>row. (fst row,
               (snd row)\<lparr>stock_quantity := stock_quantity (snd row) +
                  (if fst row = ?k then ii_quantity old else 0)\<rparr>)) (products s)"
    proof (rule map_cong [OF refl])
      fix row assume r: "row \<in> set (products s)"
      show "(if fst row = ?k
             then (fst row,
                   (snd row)\<lparr>stock_quantity := projr (?f (stock_quantity (snd row)))\<rparr>)
             else row) =
            (fst row, (snd row)\<lparr>stock_quantity := stock_quantity (snd row) +
                  (if fst row = ?k then ii_quantity old else 0)\<rparr>)"
      proof (cases "fst row = ?k")
        case True
        with \<open>\<forall>row \<in> set (products s). fst row = ?k \<longrightarrow>
            stock_quantity (snd row) + ii_quantity old \<le> 2147483647\<close> r f [OF r]
        show ?thesis by simp
      next
        case False
        then show ?thesis by (cases row) simp
      qed
    qed
    finally show ?thesis using True trig by simp
  next
    case False
    have "\<forall>row \<in> set (products s). fst row = ?k \<longrightarrow>
             ?f (stock_quantity (snd row)) = Inl IntegerOutOfRange \<or>
             (\<exists>x. ?f (stock_quantity (snd row)) = Inr x \<and> 0 \<le> x)"
    proof (intro ballI impI)
      fix row assume r: "row \<in> set (products s)" "fst row = ?k"
      from st q r(1) have "0 \<le> stock_quantity (snd row) + ii_quantity old"
        by (simp add: order_less_imp_le)
      with f [OF r(1)]
      show "?f (stock_quantity (snd row)) = Inl IntegerOutOfRange \<or>
             (\<exists>x. ?f (stock_quantity (snd row)) = Inr x \<and> 0 \<le> x)"
        by (cases "stock_quantity (snd row) + ii_quantity old \<le> 2147483647") simp_all
    qed
    moreover from False f
    have "\<exists>row \<in> set (products s). fst row = ?k \<and>
            ?f (stock_quantity (snd row)) = Inl IntegerOutOfRange"
      by auto
    ultimately have "update_stock ?f ?k (products s) = Inl IntegerOutOfRange"
      by (rule update_stock_some_Inl)
    with False trig show ?thesis by simp
  qed
qed


text \<open>
  The whole cascade: the stock of every product grows by the quantity the deleted items
  sold of it, unless one of these sums leaves the 32-bit range.
\<close>

lemma fire_item_deletes_result:
  assumes "\<forall>row \<in> set (products s).
             0 \<le> stock_quantity (snd row) \<and> stock_quantity (snd row) \<le> 2147483647"
    and "\<forall>row \<in> set rows. 0 < ii_quantity (snd row)"
    and "\<forall>row \<in> set rows. select_by_id (invoices s) (ii_invoice_id (snd row)) = None"
  shows "fire_item_deletes rows s =
     (if \<forall>row \<in> set (products s).
            stock_quantity (snd row) + sold_on rows (fst row) \<le> 2147483647
      then Inr (s\<lparr>products :=
                  map (\<lambda>row. (fst row,
                         (snd row)\<lparr>stock_quantity :=
                            stock_quantity (snd row) + sold_on rows (fst row)\<rparr>))
                    (products s)\<rparr>)
      else Inl IntegerOutOfRange)"
  using assms
proof (induction rows arbitrary: s)
  case Nil
  have "map (\<lambda>row. (fst row, (snd row)\<lparr>stock_quantity := stock_quantity (snd row)\<rparr>))
          (products s) = products s"
    by (intro map_idI) simp
  with Nil.prems(1) show ?case by simp
next
  case (Cons r rows)
  let ?old = "snd r"
  let ?k = "ii_product_id ?old"
  let ?d = "\<lambda>j. if j = ?k then ii_quantity ?old else 0"
  from Cons.prems(2) have q: "0 < ii_quantity ?old" and qs: "\<forall>row \<in> set rows. 0 < ii_quantity (snd row)"
    by simp_all
  from Cons.prems(3) have inv: "select_by_id (invoices s) (ii_invoice_id ?old) = None"
    by simp
  note step = sale_delete_step [OF Cons.prems(1) q inv]
  have sold: "sold_on (r # rows) j = ?d j + sold_on rows j" for j
    by (rule sold_on_Cons)
  from qs have nn: "0 \<le> sold_on rows j" for j by (rule sold_on_nonneg)
  show ?case
  proof (cases "\<forall>row \<in> set (products s). fst row = ?k \<longrightarrow>
            stock_quantity (snd row) + ii_quantity ?old \<le> 2147483647")
    case False
    then obtain row where row: "row \<in> set (products s)" "fst row = ?k"
        "\<not> stock_quantity (snd row) + ii_quantity ?old \<le> 2147483647"
      by blast
    with nn [of ?k]
    have "\<not> stock_quantity (snd row) + sold_on (r # rows) (fst row) \<le> 2147483647"
      by (simp add: sold)
    with row(1)
    have ncond: "\<not> (\<forall>row \<in> set (products s).
            stock_quantity (snd row) + sold_on (r # rows) (fst row) \<le> 2147483647)"
      by blast
    from step have "invoice_item_triggers (DELETE ?old) s = Inl IntegerOutOfRange"
      unfolding if_not_P [OF False] .
    then have "fire_item_deletes (r # rows) s = Inl IntegerOutOfRange"
      by simp
    then show ?thesis unfolding if_not_P [OF ncond] .
  next
    case True
    let ?s1 = "s\<lparr>products :=
                  map (\<lambda>row. (fst row,
                         (snd row)\<lparr>stock_quantity := stock_quantity (snd row) + ?d (fst row)\<rparr>))
                    (products s)\<rparr>"
    from step have s1: "invoice_item_triggers (DELETE ?old) s = Inr ?s1"
      unfolding if_P [OF True] .
    have st1: "\<forall>row \<in> set (products ?s1).
             0 \<le> stock_quantity (snd row) \<and> stock_quantity (snd row) \<le> 2147483647"
      using Cons.prems(1) True q by auto
    from Cons.prems(3)
    have inv1: "\<forall>row \<in> set rows. select_by_id (invoices ?s1) (ii_invoice_id (snd row)) = None"
      by simp
    note ih = Cons.IH [OF st1 qs inv1]
    have cond: "(\<forall>row \<in> set (products ?s1).
            stock_quantity (snd row) + sold_on rows (fst row) \<le> 2147483647) \<longleftrightarrow>
          (\<forall>row \<in> set (products s).
            stock_quantity (snd row) + sold_on (r # rows) (fst row) \<le> 2147483647)"
      by (simp add: sold add.assoc)
    have res: "?s1\<lparr>products :=
                  map (\<lambda>row. (fst row,
                         (snd row)\<lparr>stock_quantity :=
                            stock_quantity (snd row) + sold_on rows (fst row)\<rparr>))
                    (products ?s1)\<rparr> =
               s\<lparr>products :=
                  map (\<lambda>row. (fst row,
                         (snd row)\<lparr>stock_quantity :=
                            stock_quantity (snd row) + sold_on (r # rows) (fst row)\<rparr>))
                    (products s)\<rparr>"
      by (simp add: sold comp_def add.assoc)
    have "fire_item_deletes (r # rows) s = fire_item_deletes rows ?s1"
      using s1 by simp
    also note ih
    finally show ?thesis unfolding cond res .
  qed
qed


lemma map_of_restock:
  "map_of (map (\<lambda>row. (fst row, (snd row)\<lparr>stock_quantity := stock_quantity (snd row) + c (fst row)\<rparr>)) t) j =
     map_option (\<lambda>p. p\<lparr>stock_quantity := stock_quantity p + c j\<rparr>) (map_of t j)"
  by (induction t) auto

subsection \<open>The combined report\<close>

lemma length_concat_map_cong:
  "(\<And>x. x \<in> set xs \<Longrightarrow> length (f x) = length (g x)) \<Longrightarrow>
     length (concat (map f xs)) = length (concat (map g xs))"
  by (induction xs) simp_all

lemma count_sales_length:
  assumes "fkeys_ok s"
  shows "length (count_sales s st en ty) = length (export_sales s st en ty)"
  unfolding count_sales_def export_sales_def
proof (rule length_concat_map_cong)
  fix ii assume "ii \<in> set (invoice_items s)"
  with assms obtain p where "select_by_id (products s) (ii_product_id (snd ii)) = Some p"
    by (auto simp: fkeys_ok_def list_all_iff)
  then show "length (case select_by_id (invoices s) (ii_invoice_id (snd ii)) of
         None \<Rightarrow> []
       | Some i \<Rightarrow> if sale_filter ty st en (invoice_date i) then [()] else []) =
     length (case select_by_id (invoices s) (ii_invoice_id (snd ii)) of
         None \<Rightarrow> []
       | Some i \<Rightarrow>
          (case select_by_id (products s) (ii_product_id (snd ii)) of
             None \<Rightarrow> []
           | Some p \<Rightarrow>
               if sale_filter ty st en (invoice_date i) then
                 [\<lparr>transaction_date = invoice_date i, transaction_type = ''Sale'',
                   reference_number = Some (invoice_number i), product_name = p_name p,
                   quantity_change = - ii_quantity (snd ii)\<rparr>]
               else []))"
    by (simp split: option.splits)
qed

lemma count_purchases_length:
  assumes "fkeys_ok s"
  shows "length (count_purchases s st en ty) = length (export_purchases s st en ty)"
  unfolding count_purchases_def export_purchases_def
proof (rule length_concat_map_cong)
  fix pu assume "pu \<in> set (purchases s)"
  with assms obtain p where "select_by_id (products s) (pu_product_id (snd pu)) = Some p"
    by (auto simp: fkeys_ok_def list_all_iff)
  then show "length (if purchase_filter ty st en (purchase_date (snd pu)) then [()] else []) =
     length (case select_by_id (products s) (pu_product_id (snd pu)) of
         None \<Rightarrow> []
       | Some p \<Rightarrow>
           if purchase_filter ty st en (purchase_date (snd pu)) then
             [\<lparr>transaction_date = purchase_date (snd pu), transaction_type = ''Purchase'',
               reference_number = reference_invoice (snd pu), product_name = p_name p,
               quantity_change = pu_quantity (snd pu)\<rparr>]
           else [])"
    by simp
qed

lemma length_order_by [simp]: "length (order_by rows) = length rows"
  by (simp add: order_by_def)

lemma order_key_shared_columns [simp]: "order_key (shared_columns r) = order_key r"
  by (simp add: order_key_def shared_columns_def)







lemma report_sales_row:
  assumes "r \<in> set (report_sales s st en ty)"
  shows "\<exists>k it i p. (k, it) \<in> set (invoice_items s) \<and>
           select_by_id (invoices s) (ii_invoice_id it) = Some i \<and>
           select_by_id (products s) (ii_product_id it) = Some p \<and>
           sale_filter ty st en (invoice_date i) \<and>
           r = \<lparr>transaction_date = invoice_date i, transaction_type = ''Sale'',
                 reference_number = Some (invoice_number i), product_name = p_name p,
                 quantity_change = - ii_quantity it, transaction_id = k\<rparr>"
proof -
  from assms obtain ii where ii: "ii \<in> set (invoice_items s)"
    and r: "r \<in> set (case select_by_id (invoices s) (ii_invoice_id (snd ii)) of
         None \<Rightarrow> []
       | Some i \<Rightarrow>
          (case select_by_id (products s) (ii_product_id (snd ii)) of
             None \<Rightarrow> []
           | Some p \<Rightarrow>
               if sale_filter ty st en (invoice_date i) then
                 [\<lparr>transaction_date = invoice_date i, transaction_type = ''Sale'',
                   reference_number = Some (invoice_number i), product_name = p_name p,
                   quantity_change = - ii_quantity (snd ii), transaction_id = fst ii\<rparr>]
               else []))"
    by (auto simp: report_sales_def)
  show ?thesis
  proof (cases "select_by_id (invoices s) (ii_invoice_id (snd ii))")
    case None
    with r show ?thesis by simp
  next
    case i: (Some i)
    show ?thesis
    proof (cases "select_by_id (products s) (ii_product_id (snd ii))")
      case None
      with i r show ?thesis by simp
    next
      case p: (Some p)
      from r i p have "sale_filter ty st en (invoice_date i)"
        and "r = \<lparr>transaction_date = invoice_date i, transaction_type = ''Sale'',
                   reference_number = Some (invoice_number i), product_name = p_name p,
                   quantity_change = - ii_quantity (snd ii), transaction_id = fst ii\<rparr>"
        by (simp_all split: if_splits)
      with ii i p show ?thesis
        by (intro exI [of _ "fst ii"] exI [of _ "snd ii"] exI [of _ i] exI [of _ p]) simp
    qed
  qed
qed

lemma report_purchases_row:
  assumes "r \<in> set (report_purchases s st en ty)"
  shows "\<exists>k pu p. (k, pu) \<in> set (purchases s) \<and>
           select_by_id (products s) (pu_product_id pu) = Some p \<and>
           purchase_filter ty st en (purchase_date pu) \<and>
           r = \<lparr>transaction_date = purchase_date pu, transaction_type = ''Purchase'',
                 reference_number = reference_invoice pu, product_name = p_name p,
                 quantity_change = pu_quantity pu, transaction_id = k\<rparr>"
proof -
  from assms obtain row where row: "row \<in> set (purchases s)"
    and r: "r \<in> set (case select_by_id (products s) (pu_product_id (snd row)) of
         None \<Rightarrow> []
       | Some p \<Rightarrow>
           if purchase_filter ty st en (purchase_date (snd row)) then
             [\<lparr>transaction_date = purchase_date (snd row), transaction_type = ''Purchase'',
               reference_number = reference_invoice (snd row), product_name = p_name p,
               quantity_change = pu_quantity (snd row), transaction_id = fst row\<rparr>]
           else [])"
    by (auto simp: report_purchases_def)
  show ?thesis
  proof (cases "select_by_id (products s) (pu_product_id (snd row))")
    case None
    with r show ?thesis by simp
  next
    case p: (Some p)
    from r p have "purchase_filter ty st en (purchase_date (snd row))"
      and "r = \<lparr>transaction_date = purchase_date (snd row), transaction_type = ''Purchase'',
               reference_number = reference_invoice (snd row), product_name = p_name p,
               quantity_change = pu_quantity (snd row), transaction_id = fst row\<rparr>"
      by (simp_all split: if_splits)
    with row p show ?thesis
      by (intro exI [of _ "fst row"] exI [of _ "snd row"] exI [of _ p]) simp
  qed
qed

lemma order_key_le:
  "order_key a \<le> order_key b \<longleftrightarrow>
     transaction_date b < transaction_date a \<or>
     (transaction_date a = transaction_date b \<and> product_name a \<le> product_name b)"
  by (auto simp: order_key_def less_eq_prod_def)

lemma sorted_order_by:
  "sorted_wrt (\<lambda>a b. transaction_date b < transaction_date a \<or>
      (transaction_date a = transaction_date b \<and> product_name a \<le> product_name b))
     (order_by rows)"
proof -
  have "sorted (map order_key (order_by rows))"
    by (simp add: order_by_def)
  then have "sorted_wrt (\<lambda>a b. order_key a \<le> order_key b) (order_by rows)"
    by (simp add: sorted_map)
  then show ?thesis by (simp add: order_key_le)
qed

lemma set_order_by [simp]: "set (order_by rows) = set rows"
  by (simp add: order_by_def)

lemma report_sales_complete:
  assumes "(k, it) \<in> set (invoice_items s)"
    and "select_by_id (invoices s) (ii_invoice_id it) = Some i"
    and "select_by_id (products s) (ii_product_id it) = Some p"
    and "sale_filter ty st en (invoice_date i)"
  shows "\<lparr>transaction_date = invoice_date i, transaction_type = ''Sale'',
          reference_number = Some (invoice_number i), product_name = p_name p,
          quantity_change = - ii_quantity it, transaction_id = k\<rparr>
         \<in> set (report_sales s st en ty)"
  using assms by (auto simp: report_sales_def intro!: bexI [of _ "(k, it)"])

lemma report_purchases_complete:
  assumes "(k, pu) \<in> set (purchases s)"
    and "select_by_id (products s) (pu_product_id pu) = Some p"
    and "purchase_filter ty st en (purchase_date pu)"
  shows "\<lparr>transaction_date = purchase_date pu, transaction_type = ''Purchase'',
          reference_number = reference_invoice pu, product_name = p_name p,
          quantity_change = pu_quantity pu, transaction_id = k\<rparr>
         \<in> set (report_purchases s st en ty)"
  using assms by (auto simp: report_purchases_def intro!: bexI [of _ "(k, pu)"])

lemma length_concat_map_le:
  "(\<And>x. x \<in> set xs \<Longrightarrow> length (f x) \<le> length (g x)) \<Longrightarrow>
     length (concat (map f xs)) \<le> length (concat (map g xs))"
  by (induction xs) (simp_all add: add_mono)

lemma report_length_le_count:
  "int (length (report_sales s st en ty @ report_purchases s st en ty))
     \<le> get_combined_report_count s st en ty"
proof -
  have "length (report_sales s st en ty) \<le> length (count_sales s st en ty)"
    unfolding report_sales_def count_sales_def
    by (rule length_concat_map_le) (simp split: option.splits)
  moreover have "length (report_purchases s st en ty) \<le> length (count_purchases s st en ty)"
    unfolding report_purchases_def count_purchases_def
    by (rule length_concat_map_le) (simp split: option.splits)
  ultimately show ?thesis by (simp add: get_combined_report_count_def)
qed

text \<open>
  With offset 0 and a limit of at least the count, the page has a row for every item and
  every purchase that the joins and the filters let through.
\<close>

lemma combined_report_complete:
  assumes "get_combined_report s st en ty p_limit 0 = Inr rows"
    and "get_combined_report_count s st en ty \<le> p_limit"
  shows "set rows = set (report_sales s st en ty) \<union> set (report_purchases s st en ty)"
proof -
  let ?all = "order_by (report_sales s st en ty @ report_purchases s st en ty)"
  from assms(1) have rows: "rows = take (nat p_limit) ?all"
    by (simp add: get_combined_report_def limit_offset_def split: if_splits)
  from report_length_le_count [of s st en ty] assms(2)
  have "length ?all \<le> nat p_limit" by simp
  with rows have "rows = ?all" by simp
  then show ?thesis by simp
qed

section \<open>The constraints of the schema are preserved\<close>

lemma select_by_id_None: "select_by_id t k = None \<longleftrightarrow> k \<notin> fst ` set t"
  by (simp add: select_by_id_def map_of_eq_None_iff)

lemma select_by_id_keys:
  "map fst t' = map fst t \<Longrightarrow> select_by_id t' k = None \<longleftrightarrow> select_by_id t k = None"
proof -
  assume "map fst t' = map fst t"
  then have "set (map fst t') = set (map fst t)" by simp
  then show ?thesis by (simp add: select_by_id_None)
qed

lemma select_by_id_delete_other:
  "j \<noteq> k \<Longrightarrow> select_by_id (delete_by_id k t) j = select_by_id t j"
  by (induction t) (auto simp: select_by_id_def delete_by_id_def)

lemma keys_replace_by_id [simp]: "map fst (replace_by_id k new t) = map fst t"
  by (induction t) (auto simp: replace_by_id_def)

lemma set_replace_by_id: "row \<in> set (replace_by_id k new t) \<Longrightarrow> row \<in> set t \<or> row = (k, new)"
  by (auto simp: replace_by_id_def split: if_splits)

lemma distinct_delete_by_id: "distinct (map fst t) \<Longrightarrow> distinct (map fst (delete_by_id k t))"
  by (simp add: delete_by_id_def distinct_map_filter)

lemma keys_set_invoice_total [simp]:
  "map fst (invoices (set_invoice_total i s)) = map fst (invoices s)"
  by (simp add: set_invoice_total_def comp_def)

lemma keys_recalculate [simp]:
  "map fst (invoices (recalculate_invoice_total ev s)) = map fst (invoices s)"
  by (cases ev) (simp_all add: Let_def)

lemma purchases_recalculate [simp]:
  "purchases (recalculate_invoice_total ev s) = purchases s"
  by (cases ev) (simp_all add: Let_def)

text \<open>A state with the same rows, but for the invoice totals, satisfies the same constraints.\<close>

lemma valid_db_recalculate:
  "valid_db (recalculate_invoice_total ev s) = valid_db s"
proof -
  have "select_by_id (invoices (recalculate_invoice_total ev s)) j = None \<longleftrightarrow>
        select_by_id (invoices s) j = None" for j
    by (rule select_by_id_keys) simp
  then show ?thesis
    by (simp add: valid_db_def pkeys_ok_def checks_ok_def fkeys_ok_def)
qed

text \<open>A stock update whose new values are 32-bit integers keeps the constraints.\<close>

lemma update_products_stock_valid:
  assumes "update_products_stock f k s = Inr s'"
    and "\<And>x q. f x = Inr q \<Longrightarrow> int4_range q"
    and "valid_db s"
  shows "valid_db s'"
proof -
  from assms(1) obtain t where t: "update_stock f k (products s) = Inr t"
    and s': "s' = s\<lparr>products := t\<rparr>"
    unfolding update_products_stock_Inr by blast
  from update_stock_keys [OF t] have keys: "map fst t = map fst (products s)" .
  then have sel: "select_by_id t j = None \<longleftrightarrow> select_by_id (products s) j = None" for j
    by (rule select_by_id_keys)
  note r = update_stock_Inr [OF t]
  have "list_all (\<lambda>row. int4_range (stock_quantity (snd row)) \<and> stock_quantity (snd row) \<ge> 0) t"
    unfolding list_all_iff
  proof
    fix row assume "row \<in> set t"
    moreover from r have "set t =
        (\<lambda>row. if fst row = k
           then (fst row, (snd row)\<lparr>stock_quantity := projr (f (stock_quantity (snd row)))\<rparr>)
           else row) ` set (products s)"
      by simp
    ultimately obtain row0 where row0: "row0 \<in> set (products s)"
      and row: "row = (if fst row0 = k
                 then (fst row0, (snd row0)\<lparr>stock_quantity := projr (f (stock_quantity (snd row0)))\<rparr>)
                 else row0)"
      by blast
    show "int4_range (stock_quantity (snd row)) \<and> stock_quantity (snd row) \<ge> 0"
    proof (cases "fst row0 = k")
      case True
      with r row0 obtain q where q: "f (stock_quantity (snd row0)) = Inr q" "q \<ge> 0"
        by blast
      from assms(2) [OF q(1)] q True row show ?thesis by simp
    next
      case False
      with row row0 assms(3) show ?thesis
        by (auto simp: valid_db_def checks_ok_def list_all_iff)
    qed
  qed
  with assms(3) keys sel show ?thesis
    by (simp add: s' valid_db_def pkeys_ok_def checks_ok_def fkeys_ok_def)
qed

lemma int4_result: "int4 x = Inr q \<Longrightarrow> int4_range q"
  by (simp add: int4_eq_Inr)

lemma int4_result2: "ebind (int4 x) (\<lambda>y. int4 (g y)) = Inr q \<Longrightarrow> int4_range q"
  by (auto simp: ebind_eq_Inr int4_eq_Inr)

lemma update_stock_on_purchase_valid:
  assumes "update_stock_on_purchase ev s = Inr s'" and "valid_db s"
  shows "valid_db s'"
proof (cases ev)
  case (INSERT new)
  with assms show ?thesis
    by (auto elim!: update_products_stock_valid dest: int4_result)
next
  case (UPDATE old new)
  with assms show ?thesis
    by (auto elim!: update_products_stock_valid dest: int4_result2)
next
  case (DELETE old)
  with assms show ?thesis
    by (auto elim!: update_products_stock_valid dest: int4_result)
qed

lemma update_stock_on_sale_valid:
  assumes "update_stock_on_sale ev s = Inr s'" and "valid_db s"
  shows "valid_db s'"
proof (cases ev)
  case (INSERT new)
  with assms show ?thesis
    by (auto elim!: update_products_stock_valid dest: int4_result)
next
  case (DELETE old)
  with assms show ?thesis
    by (auto elim!: update_products_stock_valid dest: int4_result)
next
  case (UPDATE old new)
  show ?thesis
  proof (cases "ii_product_id old \<noteq> ii_product_id new")
    case True
    with assms UPDATE obtain s1
      where a: "update_products_stock (\<lambda>q. int4 (q + ii_quantity old)) (ii_product_id old) s
               = Inr s1"
        and b: "update_products_stock (\<lambda>q. int4 (q - ii_quantity new)) (ii_product_id new) s1
               = Inr s'"
      by (auto simp: ebind_eq_Inr)
    have "valid_db s1"
      by (rule update_products_stock_valid [OF a _ assms(2)]) (rule int4_result)
    show ?thesis
      by (rule update_products_stock_valid [OF b _ \<open>valid_db s1\<close>]) (rule int4_result)
  next
    case False
    with assms UPDATE show ?thesis
      by (auto elim!: update_products_stock_valid dest: int4_result2)
  qed
qed

lemma invoice_item_triggers_valid:
  "invoice_item_triggers ev s = Inr s' \<Longrightarrow> valid_db s \<Longrightarrow> valid_db s'"
  unfolding invoice_item_triggers_def
  by (erule update_stock_on_sale_valid) (simp add: valid_db_recalculate)

lemma fire_item_deletes_valid:
  "fire_item_deletes rows s = Inr s' \<Longrightarrow> valid_db s \<Longrightarrow> valid_db s'"
proof (induction rows arbitrary: s)
  case Nil
  then show ?case by simp
next
  case (Cons row rows)
  from Cons.prems(1) obtain s1 where s1: "invoice_item_triggers (DELETE (snd row)) s = Inr s1"
    and rest: "fire_item_deletes rows s1 = Inr s'"
    by (auto simp: ebind_eq_Inr)
  from invoice_item_triggers_valid [OF s1 Cons.prems(2)] have "valid_db s1" .
  with rest show ?case by (rule Cons.IH)
qed


lemma check_purchase_Inr:
  "check_purchase new = Inr u \<longleftrightarrow> int4_range (pu_quantity new) \<and> 0 < pu_quantity new"
  by (auto simp: check_purchase_def ebind_eq_Inr int4_eq_Inr)

lemma check_invoice_item_Inr:
  "check_invoice_item new = Inr u \<longleftrightarrow>
     int4_range (ii_quantity new) \<and> 0 < ii_quantity new \<and> 0 \<le> ii_unit_price new \<and>
     0 \<le> ii_tax_rate new \<and> ii_tax_rate new \<le> 1"
  by (auto simp: check_invoice_item_def ebind_eq_Inr int4_eq_Inr)

lemma set_delete_by_id: "set (delete_by_id k t) \<subseteq> set t"
  by (auto simp: delete_by_id_def)

lemma valid_db_purchases_append:
  assumes "valid_db s" and "check_purchase new = Inr u"
    and "select_by_id (purchases s) k = None"
    and "select_by_id (products s) (pu_product_id new) \<noteq> None"
  shows "valid_db (s\<lparr>purchases := purchases s @ [(k, new)]\<rparr>)"
  using assms
  by (auto simp: valid_db_def pkeys_ok_def checks_ok_def fkeys_ok_def check_purchase_Inr
      select_by_id_None)

lemma valid_db_purchases_replace:
  assumes "valid_db s" and "check_purchase new = Inr u"
    and "select_by_id (products s) (pu_product_id new) \<noteq> None"
  shows "valid_db (s\<lparr>purchases := replace_by_id k new (purchases s)\<rparr>)"
  using assms
  by (auto simp: valid_db_def pkeys_ok_def checks_ok_def fkeys_ok_def check_purchase_Inr
      list_all_iff dest!: set_replace_by_id)

lemma valid_db_purchases_delete:
  assumes "valid_db s"
  shows "valid_db (s\<lparr>purchases := delete_by_id k (purchases s)\<rparr>)"
  using assms set_delete_by_id [of k "purchases s"]
  by (auto simp: valid_db_def pkeys_ok_def checks_ok_def fkeys_ok_def list_all_iff
      distinct_delete_by_id)

lemma valid_db_items_append:
  assumes "valid_db s" and "check_invoice_item new = Inr u"
    and "select_by_id (invoice_items s) k = None"
    and "select_by_id (invoices s) (ii_invoice_id new) \<noteq> None"
    and "select_by_id (products s) (ii_product_id new) \<noteq> None"
  shows "valid_db (s\<lparr>invoice_items := invoice_items s @ [(k, new)]\<rparr>)"
  using assms
  by (auto simp: valid_db_def pkeys_ok_def checks_ok_def fkeys_ok_def check_invoice_item_Inr
      select_by_id_None)

lemma valid_db_items_replace:
  assumes "valid_db s" and "check_invoice_item new = Inr u"
    and "select_by_id (invoices s) (ii_invoice_id new) \<noteq> None"
    and "select_by_id (products s) (ii_product_id new) \<noteq> None"
  shows "valid_db (s\<lparr>invoice_items := replace_by_id k new (invoice_items s)\<rparr>)"
  using assms
  by (auto simp: valid_db_def pkeys_ok_def checks_ok_def fkeys_ok_def check_invoice_item_Inr
      list_all_iff dest!: set_replace_by_id)

lemma valid_db_items_delete:
  assumes "valid_db s"
  shows "valid_db (s\<lparr>invoice_items := delete_by_id k (invoice_items s)\<rparr>)"
  using assms set_delete_by_id [of k "invoice_items s"]
  by (auto simp: valid_db_def pkeys_ok_def checks_ok_def fkeys_ok_def list_all_iff
      distinct_delete_by_id)

lemma valid_db_invoice_delete:
  assumes "valid_db s"
  shows "valid_db (s\<lparr>invoices := delete_by_id i (invoices s),
                     invoice_items :=
                       filter (\<lambda>row. ii_invoice_id (snd row) \<noteq> i) (invoice_items s)\<rparr>)"
  using assms set_delete_by_id [of i "invoices s"]
  by (auto simp: valid_db_def pkeys_ok_def checks_ok_def fkeys_ok_def list_all_iff
      distinct_delete_by_id distinct_map_filter select_by_id_delete_other)


lemma delete_purchase_valid:
  assumes "delete_purchase k s = Inr s'" and "valid_db s"
  shows "valid_db s'"
proof (cases "select_by_id (purchases s) k")
  case None
  with assms show ?thesis by (simp add: delete_purchase_def)
next
  case (Some old)
  with assms(1) have "update_stock_on_purchase (DELETE old)
      (s\<lparr>purchases := delete_by_id k (purchases s)\<rparr>) = Inr s'"
    by (simp add: delete_purchase_def)
  then show ?thesis
    using valid_db_purchases_delete [OF assms(2)] by (rule update_stock_on_purchase_valid)
qed

text \<open>Every mutation of the core leaves a state that satisfies the schema's constraints.\<close>

lemma apply_mutation_valid:
  assumes "apply_mutation m s = Inr s'" and "valid_db s"
  shows "valid_db s'"
proof (cases m)
  case (InsertPurchase k new)
  with assms(1) obtain u where "check_purchase new = Inr u"
    and "select_by_id (purchases s) k = None"
    and "select_by_id (products s) (pu_product_id new) \<noteq> None"
    and t: "update_stock_on_purchase (INSERT new)
          (s\<lparr>purchases := purchases s @ [(k, new)]\<rparr>) = Inr s'"
    by (auto simp: insert_purchase_def ebind_eq_Inr split: if_splits
        simp del: update_stock_on_purchase.simps)
  with assms(2) have "valid_db (s\<lparr>purchases := purchases s @ [(k, new)]\<rparr>)"
    by (intro valid_db_purchases_append)
  with t show ?thesis by (rule update_stock_on_purchase_valid)
next
  case (UpdatePurchase k new)
  show ?thesis
  proof (cases "select_by_id (purchases s) k")
    case None
    with assms UpdatePurchase show ?thesis by (simp add: update_purchase_def)
  next
    case (Some old)
    with assms(1) UpdatePurchase obtain u where "check_purchase new = Inr u"
      and "select_by_id (products s) (pu_product_id new) \<noteq> None"
      and t: "update_stock_on_purchase (UPDATE old new)
          (s\<lparr>purchases := replace_by_id k new (purchases s)\<rparr>) = Inr s'"
      by (auto simp: update_purchase_def ebind_eq_Inr split: if_splits
          simp del: update_stock_on_purchase.simps)
    with assms(2) have "valid_db (s\<lparr>purchases := replace_by_id k new (purchases s)\<rparr>)"
      by (intro valid_db_purchases_replace)
    with t show ?thesis by (rule update_stock_on_purchase_valid)
  qed
next
  case (DeletePurchase k)
  with assms show ?thesis by (auto dest: delete_purchase_valid)
next
  case (InsertInvoiceItem k new)
  with assms(1) obtain u where "check_invoice_item new = Inr u"
    and "select_by_id (invoice_items s) k = None"
    and "select_by_id (invoices s) (ii_invoice_id new) \<noteq> None"
    and "select_by_id (products s) (ii_product_id new) \<noteq> None"
    and t: "invoice_item_triggers (INSERT new)
          (s\<lparr>invoice_items := invoice_items s @ [(k, new)]\<rparr>) = Inr s'"
    by (auto simp: insert_invoice_item_def ebind_eq_Inr split: if_splits)
  with assms(2) have "valid_db (s\<lparr>invoice_items := invoice_items s @ [(k, new)]\<rparr>)"
    by (intro valid_db_items_append)
  with t show ?thesis by (rule invoice_item_triggers_valid)
next
  case (UpdateInvoiceItem k new)
  show ?thesis
  proof (cases "select_by_id (invoice_items s) k")
    case None
    with assms UpdateInvoiceItem show ?thesis by (simp add: update_invoice_item_def)
  next
    case (Some old)
    with assms(1) UpdateInvoiceItem obtain u where "check_invoice_item new = Inr u"
      and "select_by_id (invoices s) (ii_invoice_id new) \<noteq> None"
      and "select_by_id (products s) (ii_product_id new) \<noteq> None"
      and t: "invoice_item_triggers (UPDATE old new)
          (s\<lparr>invoice_items := replace_by_id k new (invoice_items s)\<rparr>) = Inr s'"
      by (auto simp: update_invoice_item_def ebind_eq_Inr split: if_splits)
    with assms(2) have "valid_db (s\<lparr>invoice_items := replace_by_id k new (invoice_items s)\<rparr>)"
      by (intro valid_db_items_replace)
    with t show ?thesis by (rule invoice_item_triggers_valid)
  qed
next
  case (DeleteInvoiceItem k)
  show ?thesis
  proof (cases "select_by_id (invoice_items s) k")
    case None
    with assms DeleteInvoiceItem show ?thesis by (simp add: delete_invoice_item_def)
  next
    case (Some old)
    with assms(1) DeleteInvoiceItem
    have "invoice_item_triggers (DELETE old)
          (s\<lparr>invoice_items := delete_by_id k (invoice_items s)\<rparr>) = Inr s'"
      by (simp add: delete_invoice_item_def)
    then show ?thesis
      using valid_db_items_delete [OF assms(2)] by (rule invoice_item_triggers_valid)
  qed
next
  case (DeleteInvoiceById i)
  with assms(1) have "fire_item_deletes
               (filter (\<lambda>row. ii_invoice_id (snd row) = i) (invoice_items s))
               (s\<lparr>invoices := delete_by_id i (invoices s),
                  invoice_items :=
                    filter (\<lambda>row. ii_invoice_id (snd row) \<noteq> i) (invoice_items s)\<rparr>) = Inr s'"
    by (auto simp: delete_invoice_by_id_def delete_invoice_def ebind_eq_Inr
        split: option.splits if_splits)
  then show ?thesis
    using valid_db_invoice_delete [OF assms(2)] by (rule fire_item_deletes_valid)
next
  case (DeletePurchaseSafely k)
  with assms(1) have "delete_purchase k s = Inr s'"
    by (auto simp: delete_purchase_safely_def ebind_eq_Inr Let_def
        split: option.splits if_splits)
  then show ?thesis using assms(2) by (rule delete_purchase_valid)
qed

lemma transaction_valid: "valid_db s \<Longrightarrow> valid_db (transaction m s)"
  by (auto simp: transaction_def split: sum.splits dest: apply_mutation_valid)

lemma run_valid: "valid_db s \<Longrightarrow> valid_db (run ms s)"
  by (induction ms arbitrary: s) (simp_all add: transaction_valid)

section \<open>The stock ledger is preserved, but for one update\<close>

lemma sum_filter_delete_by_id:
  assumes "distinct (map fst t)" and "map_of t k = Some old"
  shows "sum_list (map g (filter P (delete_by_id k t))) =
           sum_list (map g (filter P t)) - (if P (k, old) then g (k, old) else (0::int))"
  using assms
proof (induction t)
  case Nil
  then show ?case by simp
next
  case (Cons row t)
  obtain k' r where row: "row = (k', r)" by (cases row)
  show ?case
  proof (cases "k' = k")
    case True
    with Cons.prems row have "r = old" and "k \<notin> fst ` set t" by auto
    then have "delete_by_id k t = t"
      by (auto simp: delete_by_id_def intro!: filter_True)
    with True row \<open>r = old\<close> show ?thesis by (simp add: delete_by_id_def)
  next
    case False
    with Cons.prems row have "map_of t k = Some old" "distinct (map fst t)" by auto
    from Cons.IH [OF this(2,1)] False row show ?thesis by (simp add: delete_by_id_def)
  qed
qed

lemma sum_filter_replace_by_id:
  assumes "distinct (map fst t)" and "map_of t k = Some old"
  shows "sum_list (map g (filter P (replace_by_id k new t))) =
           sum_list (map g (filter P t)) - (if P (k, old) then g (k, old) else (0::int))
             + (if P (k, new) then g (k, new) else 0)"
  using assms
proof (induction t)
  case Nil
  then show ?case by simp
next
  case (Cons row t)
  obtain k' r where row: "row = (k', r)" by (cases row)
  show ?case
  proof (cases "k' = k")
    case True
    with Cons.prems row have "r = old" and "k \<notin> fst ` set t" by auto
    then have "replace_by_id k new t = t"
      unfolding replace_by_id_def by (intro map_idI) force
    with True row \<open>r = old\<close> show ?thesis by (simp add: replace_by_id_def)
  next
    case False
    with Cons.prems row have "map_of t k = Some old" "distinct (map fst t)" by auto
    from Cons.IH [OF this(2,1)] False row show ?thesis by (simp add: replace_by_id_def)
  qed
qed

lemma sum_filter_split:
  "sum_list (map g (filter (\<lambda>row. P row \<and> \<not> Q row) t)) =
     sum_list (map g (filter P t)) - sum_list (map g (filter (\<lambda>row. P row \<and> Q row) t))"
  for g :: "'a \<Rightarrow> int"
  by (induction t) auto

text \<open>The stock column after a successful update that adds \<open>c\<close>.\<close>

lemma update_products_stock_adds:
  assumes "update_products_stock f k s = Inr s'"
    and "\<And>x q. f x = Inr q \<Longrightarrow> q = x + c"
  shows "map (\<lambda>row. (fst row, stock_quantity (snd row))) (products s') =
           map (\<lambda>row. (fst row, stock_quantity (snd row) + (if fst row = k then c else 0)))
             (products s) \<and>
         purchases s' = purchases s \<and> invoices s' = invoices s \<and>
         invoice_items s' = invoice_items s"
proof -
  from assms(1) obtain t where t: "update_stock f k (products s) = Inr t"
    and s': "s' = s\<lparr>products := t\<rparr>"
    unfolding update_products_stock_Inr by blast
  note r = update_stock_Inr [OF t]
  have "map (\<lambda>row. (fst row, stock_quantity (snd row))) t =
      map (\<lambda>row. (fst row, stock_quantity (snd row) + (if fst row = k then c else 0)))
        (products s)"
    unfolding conjunct1 [OF r] map_map
  proof (rule map_cong [OF refl])
    fix row assume row: "row \<in> set (products s)"
    show "((\<lambda>row. (fst row, stock_quantity (snd row))) \<circ>
           (\<lambda>row. if fst row = k
              then (fst row, (snd row)\<lparr>stock_quantity := projr (f (stock_quantity (snd row)))\<rparr>)
              else row)) row =
          (fst row, stock_quantity (snd row) + (if fst row = k then c else 0))"
    proof (cases "fst row = k")
      case True
      with r row obtain q where q: "f (stock_quantity (snd row)) = Inr q" by blast
      from assms(2) [OF q] q True show ?thesis by simp
    next
      case False
      then show ?thesis by simp
    qed
  qed
  with s' show ?thesis by simp
qed

text \<open>
  If every stock moves by \<open>d\<close> of its product, and purchases minus sales move by the
  same, the ledger stays balanced.
\<close>

lemma ledger_delta:
  assumes "ledger_ok s"
    and "map (\<lambda>row. (fst row, stock_quantity (snd row))) (products s') =
           map (\<lambda>row. (fst row, stock_quantity (snd row) + d (fst row))) (products s)"
    and "\<And>j. purchased s' j - sold s' j = purchased s j - sold s j + d j"
  shows "ledger_ok s'"
  unfolding ledger_ok_def list_all_iff
proof
  fix row' assume "row' \<in> set (products s')"
  then have "(fst row', stock_quantity (snd row')) \<in>
      set (map (\<lambda>row. (fst row, stock_quantity (snd row))) (products s'))"
    by (simp add: image_iff) blast
  with assms(2) obtain row where row: "row \<in> set (products s)"
    and eq: "fst row' = fst row" "stock_quantity (snd row') = stock_quantity (snd row) + d (fst row)"
    by auto
  from assms(1) row have "stock_quantity (snd row) = purchased s (fst row) - sold s (fst row)"
    by (simp add: ledger_ok_def list_all_iff)
  with eq assms(3) [of "fst row"]
  show "stock_quantity (snd row') = purchased s' (fst row') - sold s' (fst row')"
    by simp
qed


lemma stock_column_compose:
  assumes "map (\<lambda>row. (fst row, stock_quantity (snd row))) t2 =
             map (\<lambda>row. (fst row, stock_quantity (snd row) + d1 (fst row))) t1"
    and "map (\<lambda>row. (fst row, stock_quantity (snd row))) t3 =
             map (\<lambda>row. (fst row, stock_quantity (snd row) + d2 (fst row))) t2"
  shows "map (\<lambda>row. (fst row, stock_quantity (snd row))) t3 =
             map (\<lambda>row. (fst row, stock_quantity (snd row) + (d1 (fst row) + d2 (fst row)))) t1"
proof -
  have "map (\<lambda>row. (fst row, stock_quantity (snd row) + d2 (fst row))) t2 =
        map (\<lambda>kq. (fst kq, snd kq + d2 (fst kq)))
          (map (\<lambda>row. (fst row, stock_quantity (snd row))) t2)"
    by simp
  also have "\<dots> = map (\<lambda>kq. (fst kq, snd kq + d2 (fst kq)))
          (map (\<lambda>row. (fst row, stock_quantity (snd row) + d1 (fst row))) t1)"
    by (simp only: assms(1))
  also have "\<dots> =
      map (\<lambda>row. (fst row, stock_quantity (snd row) + (d1 (fst row) + d2 (fst row)))) t1"
    by (simp add: add.assoc)
  finally show ?thesis using assms(2) by simp
qed

lemma purchased_cong: "purchases s' = purchases s \<Longrightarrow> purchased s' j = purchased s j"
  by (simp add: purchased_def)

lemma sold_cong: "invoice_items s' = invoice_items s \<Longrightarrow> sold s' j = sold s j"
  by (simp add: sold_def)

lemma purchased_append:
  "purchased (s\<lparr>purchases := purchases s @ [(k, new)]\<rparr>) j =
     purchased s j + (if pu_product_id new = j then pu_quantity new else 0)"
  by (simp add: purchased_def)

lemma purchased_delete:
  assumes "distinct (map fst (purchases s))" and "select_by_id (purchases s) k = Some old"
  shows "purchased (s\<lparr>purchases := delete_by_id k (purchases s)\<rparr>) j =
           purchased s j - (if pu_product_id old = j then pu_quantity old else 0)"
  using assms
  by (simp add: purchased_def select_by_id_def sum_filter_delete_by_id [where old = old])

lemma purchased_replace:
  assumes "distinct (map fst (purchases s))" and "select_by_id (purchases s) k = Some old"
  shows "purchased (s\<lparr>purchases := replace_by_id k new (purchases s)\<rparr>) j =
           purchased s j - (if pu_product_id old = j then pu_quantity old else 0)
             + (if pu_product_id new = j then pu_quantity new else 0)"
  using assms
  by (simp add: purchased_def select_by_id_def sum_filter_replace_by_id [where old = old])

lemma sold_append:
  "sold (s\<lparr>invoice_items := invoice_items s @ [(k, new)]\<rparr>) j =
     sold s j + (if ii_product_id new = j then ii_quantity new else 0)"
  by (simp add: sold_def)

lemma sold_delete:
  assumes "distinct (map fst (invoice_items s))" and "select_by_id (invoice_items s) k = Some old"
  shows "sold (s\<lparr>invoice_items := delete_by_id k (invoice_items s)\<rparr>) j =
           sold s j - (if ii_product_id old = j then ii_quantity old else 0)"
  using assms
  by (simp add: sold_def select_by_id_def sum_filter_delete_by_id [where old = old])

lemma sold_replace:
  assumes "distinct (map fst (invoice_items s))" and "select_by_id (invoice_items s) k = Some old"
  shows "sold (s\<lparr>invoice_items := replace_by_id k new (invoice_items s)\<rparr>) j =
           sold s j - (if ii_product_id old = j then ii_quantity old else 0)
             + (if ii_product_id new = j then ii_quantity new else 0)"
  using assms
  by (simp add: sold_def select_by_id_def sum_filter_replace_by_id [where old = old])

lemma sold_invoice_delete:
  "sold (s\<lparr>invoices := iv,
            invoice_items := filter (\<lambda>row. ii_invoice_id (snd row) \<noteq> i) (invoice_items s)\<rparr>) j =
     sold s j - sold_on (items_of s i) j"
proof -
  have "filter (\<lambda>row. ii_product_id (snd row) = j)
          (filter (\<lambda>row. ii_invoice_id (snd row) \<noteq> i) (invoice_items s)) =
        filter (\<lambda>row. ii_product_id (snd row) = j \<and> \<not> ii_invoice_id (snd row) = i)
          (invoice_items s)"
    by (simp add: conj_commute)
  moreover have "filter (\<lambda>row. ii_product_id (snd row) = j)
          (filter (\<lambda>row. ii_invoice_id (snd row) = i) (invoice_items s)) =
        filter (\<lambda>row. ii_product_id (snd row) = j \<and> ii_invoice_id (snd row) = i)
          (invoice_items s)"
    by (simp add: conj_commute)
  ultimately show ?thesis
    by (simp add: sold_def sold_on_def items_of_def sum_filter_split)
qed

text \<open>What each trigger adds to the stock column, and to which product.\<close>

lemma update_stock_on_purchase_adds:
  assumes "update_stock_on_purchase ev s = Inr s'"
  shows "map (\<lambda>row. (fst row, stock_quantity (snd row))) (products s') =
           map (\<lambda>row. (fst row, stock_quantity (snd row) +
                  (case ev of
                     INSERT new \<Rightarrow> if fst row = pu_product_id new then pu_quantity new else 0
                   | DELETE old \<Rightarrow> if fst row = pu_product_id old then - pu_quantity old else 0
                   | UPDATE old new \<Rightarrow>
                       if fst row = pu_product_id new then pu_quantity new - pu_quantity old
                       else 0)))
             (products s) \<and>
         purchases s' = purchases s \<and> invoices s' = invoices s \<and>
         invoice_items s' = invoice_items s"
proof (cases ev)
  case (INSERT new)
  with assms have "update_products_stock (\<lambda>q. int4 (q + pu_quantity new))
      (pu_product_id new) s = Inr s'" by simp
  from update_products_stock_adds [OF this, of "pu_quantity new"] INSERT
  show ?thesis by (simp add: int4_eq_Inr)
next
  case (DELETE old)
  with assms have "update_products_stock (\<lambda>q. int4 (q - pu_quantity old))
      (pu_product_id old) s = Inr s'" by simp
  from update_products_stock_adds [OF this, of "- pu_quantity old"] DELETE
  show ?thesis by (simp add: int4_eq_Inr)
next
  case (UPDATE old new)
  with assms have "update_products_stock
       (\<lambda>q. ebind (int4 (q - pu_quantity old)) (\<lambda>q'. int4 (q' + pu_quantity new)))
       (pu_product_id new) s = Inr s'" by simp
  from update_products_stock_adds [OF this, of "pu_quantity new - pu_quantity old"] UPDATE
  show ?thesis by (simp add: int4_eq_Inr ebind_eq_Inr)
qed


lemma update_stock_on_sale_adds:
  assumes "update_stock_on_sale ev s = Inr s'"
  shows "map (\<lambda>row. (fst row, stock_quantity (snd row))) (products s') =
           map (\<lambda>row. (fst row, stock_quantity (snd row) +
                  (case ev of
                     INSERT new \<Rightarrow> if fst row = ii_product_id new then - ii_quantity new else 0
                   | DELETE old \<Rightarrow> if fst row = ii_product_id old then ii_quantity old else 0
                   | UPDATE old new \<Rightarrow>
                       (if fst row = ii_product_id old then ii_quantity old else 0) +
                       (if fst row = ii_product_id new then - ii_quantity new else 0))))
             (products s) \<and>
         purchases s' = purchases s \<and> invoices s' = invoices s \<and>
         invoice_items s' = invoice_items s"
proof (cases ev)
  case (INSERT new)
  with assms have "update_products_stock (\<lambda>q. int4 (q - ii_quantity new))
      (ii_product_id new) s = Inr s'" by simp
  from update_products_stock_adds [OF this, of "- ii_quantity new"] INSERT
  show ?thesis by (simp add: int4_eq_Inr)
next
  case (DELETE old)
  with assms have "update_products_stock (\<lambda>q. int4 (q + ii_quantity old))
      (ii_product_id old) s = Inr s'" by simp
  from update_products_stock_adds [OF this, of "ii_quantity old"] DELETE
  show ?thesis by (simp add: int4_eq_Inr)
next
  case (UPDATE old new)
  show ?thesis
  proof (cases "ii_product_id old \<noteq> ii_product_id new")
    case True
    with assms UPDATE obtain s1
      where a: "update_products_stock (\<lambda>q. int4 (q + ii_quantity old)) (ii_product_id old) s
               = Inr s1"
        and b: "update_products_stock (\<lambda>q. int4 (q - ii_quantity new)) (ii_product_id new) s1
               = Inr s'"
      by (auto simp: ebind_eq_Inr)
    from update_products_stock_adds [OF a, of "ii_quantity old"]
    have a': "map (\<lambda>row. (fst row, stock_quantity (snd row))) (products s1) =
           map (\<lambda>row. (fst row, stock_quantity (snd row) +
                  (if fst row = ii_product_id old then ii_quantity old else 0))) (products s)"
      and fa: "purchases s1 = purchases s" "invoices s1 = invoices s"
        "invoice_items s1 = invoice_items s"
      by (simp_all add: int4_eq_Inr)
    from update_products_stock_adds [OF b, of "- ii_quantity new"]
    have b': "map (\<lambda>row. (fst row, stock_quantity (snd row))) (products s') =
           map (\<lambda>row. (fst row, stock_quantity (snd row) +
                  (if fst row = ii_product_id new then - ii_quantity new else 0))) (products s1)"
      and fb: "purchases s' = purchases s1" "invoices s' = invoices s1"
        "invoice_items s' = invoice_items s1"
      by (simp_all add: int4_eq_Inr)
    from stock_column_compose [OF a' b'] fa fb UPDATE show ?thesis by simp
  next
    case False
    with assms UPDATE have "update_products_stock
          (\<lambda>q. ebind (int4 (q + ii_quantity old)) (\<lambda>q'. int4 (q' - ii_quantity new)))
          (ii_product_id new) s = Inr s'" by simp
    from update_products_stock_adds [OF this, of "ii_quantity old - ii_quantity new"]
      UPDATE False
    show ?thesis by (simp add: int4_eq_Inr ebind_eq_Inr)
  qed
qed

lemma invoice_item_triggers_adds:
  assumes "invoice_item_triggers ev s = Inr s'"
  shows "map (\<lambda>row. (fst row, stock_quantity (snd row))) (products s') =
           map (\<lambda>row. (fst row, stock_quantity (snd row) +
                  (case ev of
                     INSERT new \<Rightarrow> if fst row = ii_product_id new then - ii_quantity new else 0
                   | DELETE old \<Rightarrow> if fst row = ii_product_id old then ii_quantity old else 0
                   | UPDATE old new \<Rightarrow>
                       (if fst row = ii_product_id old then ii_quantity old else 0) +
                       (if fst row = ii_product_id new then - ii_quantity new else 0))))
             (products s) \<and>
         purchases s' = purchases s \<and> invoice_items s' = invoice_items s"
proof -
  from assms have "update_stock_on_sale ev (recalculate_invoice_total ev s) = Inr s'"
    by (simp add: invoice_item_triggers_def)
  from update_stock_on_sale_adds [OF this] show ?thesis by simp
qed


lemma ledger_insert_purchase:
  assumes "insert_purchase k new s = Inr s'" and "ledger_ok s"
  shows "ledger_ok s'"
proof -
  let ?s1 = "s\<lparr>purchases := purchases s @ [(k, new)]\<rparr>"
  from assms(1) have "update_stock_on_purchase (INSERT new) ?s1 = Inr s'"
    by (auto simp: insert_purchase_def ebind_eq_Inr split: if_splits
        simp del: update_stock_on_purchase.simps)
  from update_stock_on_purchase_adds [OF this]
  have st: "map (\<lambda>row. (fst row, stock_quantity (snd row))) (products s') =
           map (\<lambda>row. (fst row, stock_quantity (snd row) +
                  (if fst row = pu_product_id new then pu_quantity new else 0))) (products s)"
    and pu: "purchases s' = purchases ?s1" and ii: "invoice_items s' = invoice_items s"
    by simp_all
  show ?thesis
  proof (rule ledger_delta [OF assms(2) st])
    fix j
    from pu have "purchased s' j = purchased ?s1 j" by (rule purchased_cong)
    moreover from ii have "sold s' j = sold s j" by (rule sold_cong)
    ultimately show "purchased s' j - sold s' j =
        purchased s j - sold s j + (if j = pu_product_id new then pu_quantity new else 0)"
      by (auto simp: purchased_append)
  qed
qed

lemma ledger_delete_purchase:
  assumes "delete_purchase k s = Inr s'" and "ledger_ok s" and "valid_db s"
  shows "ledger_ok s'"
proof (cases "select_by_id (purchases s) k")
  case None
  with assms show ?thesis by (simp add: delete_purchase_def)
next
  case (Some old)
  let ?s1 = "s\<lparr>purchases := delete_by_id k (purchases s)\<rparr>"
  from assms(1) Some have "update_stock_on_purchase (DELETE old) ?s1 = Inr s'"
    by (simp add: delete_purchase_def)
  from update_stock_on_purchase_adds [OF this]
  have st: "map (\<lambda>row. (fst row, stock_quantity (snd row))) (products s') =
           map (\<lambda>row. (fst row, stock_quantity (snd row) +
                  (if fst row = pu_product_id old then - pu_quantity old else 0))) (products s)"
    and pu: "purchases s' = purchases ?s1" and ii: "invoice_items s' = invoice_items s"
    by simp_all
  from assms(3) have d: "distinct (map fst (purchases s))"
    by (simp add: valid_db_def pkeys_ok_def)
  show ?thesis
  proof (rule ledger_delta [OF assms(2) st])
    fix j
    from pu have "purchased s' j = purchased ?s1 j" by (rule purchased_cong)
    moreover from ii have "sold s' j = sold s j" by (rule sold_cong)
    ultimately show "purchased s' j - sold s' j =
        purchased s j - sold s j + (if j = pu_product_id old then - pu_quantity old else 0)"
      by (auto simp: purchased_delete [OF d Some])
  qed
qed

lemma ledger_update_purchase:
  assumes "update_purchase k new s = Inr s'" and "ledger_ok s" and "valid_db s"
    and "\<not> changes_purchase_product (UpdatePurchase k new) s"
  shows "ledger_ok s'"
proof (cases "select_by_id (purchases s) k")
  case None
  with assms show ?thesis by (simp add: update_purchase_def)
next
  case (Some old)
  let ?s1 = "s\<lparr>purchases := replace_by_id k new (purchases s)\<rparr>"
  from assms(4) Some have same: "pu_product_id new = pu_product_id old"
    by (simp add: changes_purchase_product_def)
  from assms(1) Some have "update_stock_on_purchase (UPDATE old new) ?s1 = Inr s'"
    by (auto simp: update_purchase_def ebind_eq_Inr split: if_splits
        simp del: update_stock_on_purchase.simps)
  from update_stock_on_purchase_adds [OF this]
  have st: "map (\<lambda>row. (fst row, stock_quantity (snd row))) (products s') =
           map (\<lambda>row. (fst row, stock_quantity (snd row) +
                  (if fst row = pu_product_id new then pu_quantity new - pu_quantity old
                   else 0))) (products s)"
    and pu: "purchases s' = purchases ?s1" and ii: "invoice_items s' = invoice_items s"
    by simp_all
  from assms(3) have d: "distinct (map fst (purchases s))"
    by (simp add: valid_db_def pkeys_ok_def)
  show ?thesis
  proof (rule ledger_delta [OF assms(2) st])
    fix j
    from pu have "purchased s' j = purchased ?s1 j" by (rule purchased_cong)
    moreover from ii have "sold s' j = sold s j" by (rule sold_cong)
    ultimately show "purchased s' j - sold s' j =
        purchased s j - sold s j +
          (if j = pu_product_id new then pu_quantity new - pu_quantity old else 0)"
      using same by (auto simp: purchased_replace [OF d Some])
  qed
qed

lemma ledger_insert_invoice_item:
  assumes "insert_invoice_item k new s = Inr s'" and "ledger_ok s"
  shows "ledger_ok s'"
proof -
  let ?s1 = "s\<lparr>invoice_items := invoice_items s @ [(k, new)]\<rparr>"
  from assms(1) have "invoice_item_triggers (INSERT new) ?s1 = Inr s'"
    by (auto simp: insert_invoice_item_def ebind_eq_Inr split: if_splits)
  from invoice_item_triggers_adds [OF this]
  have st: "map (\<lambda>row. (fst row, stock_quantity (snd row))) (products s') =
           map (\<lambda>row. (fst row, stock_quantity (snd row) +
                  (if fst row = ii_product_id new then - ii_quantity new else 0))) (products s)"
    and pu: "purchases s' = purchases s" and ii: "invoice_items s' = invoice_items ?s1"
    by simp_all
  show ?thesis
  proof (rule ledger_delta [OF assms(2) st])
    fix j
    from pu have "purchased s' j = purchased s j" by (rule purchased_cong)
    moreover from ii have "sold s' j = sold ?s1 j" by (rule sold_cong)
    ultimately show "purchased s' j - sold s' j =
        purchased s j - sold s j + (if j = ii_product_id new then - ii_quantity new else 0)"
      by (auto simp: sold_append)
  qed
qed

lemma ledger_update_invoice_item:
  assumes "update_invoice_item k new s = Inr s'" and "ledger_ok s" and "valid_db s"
  shows "ledger_ok s'"
proof (cases "select_by_id (invoice_items s) k")
  case None
  with assms show ?thesis by (simp add: update_invoice_item_def)
next
  case (Some old)
  let ?s1 = "s\<lparr>invoice_items := replace_by_id k new (invoice_items s)\<rparr>"
  from assms(1) Some have "invoice_item_triggers (UPDATE old new) ?s1 = Inr s'"
    by (auto simp: update_invoice_item_def ebind_eq_Inr split: if_splits)
  from invoice_item_triggers_adds [OF this]
  have st: "map (\<lambda>row. (fst row, stock_quantity (snd row))) (products s') =
           map (\<lambda>row. (fst row, stock_quantity (snd row) +
                  ((if fst row = ii_product_id old then ii_quantity old else 0) +
                   (if fst row = ii_product_id new then - ii_quantity new else 0))))
             (products s)"
    and pu: "purchases s' = purchases s" and ii: "invoice_items s' = invoice_items ?s1"
    by simp_all
  from assms(3) have d: "distinct (map fst (invoice_items s))"
    by (simp add: valid_db_def pkeys_ok_def)
  show ?thesis
  proof (rule ledger_delta [OF assms(2) st])
    fix j
    from pu have "purchased s' j = purchased s j" by (rule purchased_cong)
    moreover from ii have "sold s' j = sold ?s1 j" by (rule sold_cong)
    ultimately show "purchased s' j - sold s' j =
        purchased s j - sold s j +
          ((if j = ii_product_id old then ii_quantity old else 0) +
           (if j = ii_product_id new then - ii_quantity new else 0))"
      by (auto simp: sold_replace [OF d Some])
  qed
qed

lemma ledger_delete_invoice_item:
  assumes "delete_invoice_item k s = Inr s'" and "ledger_ok s" and "valid_db s"
  shows "ledger_ok s'"
proof (cases "select_by_id (invoice_items s) k")
  case None
  with assms show ?thesis by (simp add: delete_invoice_item_def)
next
  case (Some old)
  let ?s1 = "s\<lparr>invoice_items := delete_by_id k (invoice_items s)\<rparr>"
  from assms(1) Some have "invoice_item_triggers (DELETE old) ?s1 = Inr s'"
    by (simp add: delete_invoice_item_def)
  from invoice_item_triggers_adds [OF this]
  have st: "map (\<lambda>row. (fst row, stock_quantity (snd row))) (products s') =
           map (\<lambda>row. (fst row, stock_quantity (snd row) +
                  (if fst row = ii_product_id old then ii_quantity old else 0))) (products s)"
    and pu: "purchases s' = purchases s" and ii: "invoice_items s' = invoice_items ?s1"
    by simp_all
  from assms(3) have d: "distinct (map fst (invoice_items s))"
    by (simp add: valid_db_def pkeys_ok_def)
  show ?thesis
  proof (rule ledger_delta [OF assms(2) st])
    fix j
    from pu have "purchased s' j = purchased s j" by (rule purchased_cong)
    moreover from ii have "sold s' j = sold ?s1 j" by (rule sold_cong)
    ultimately show "purchased s' j - sold s' j =
        purchased s j - sold s j + (if j = ii_product_id old then ii_quantity old else 0)"
      by (auto simp: sold_delete [OF d Some])
  qed
qed


lemma ledger_delete_invoice_by_id:
  assumes "delete_invoice_by_id i s = Inr s'" and "ledger_ok s" and "valid_db s"
  shows "ledger_ok s'"
proof -
  let ?rows = "items_of s i"
  let ?s1 = "s\<lparr>invoices := delete_by_id i (invoices s),
               invoice_items :=
                 filter (\<lambda>row. ii_invoice_id (snd row) \<noteq> i) (invoice_items s)\<rparr>"
  let ?s2 = "?s1\<lparr>products :=
                  map (\<lambda>row. (fst row,
                         (snd row)\<lparr>stock_quantity :=
                            stock_quantity (snd row) + sold_on ?rows (fst row)\<rparr>))
                    (products ?s1)\<rparr>"
  from assms(1) have loop: "fire_item_deletes ?rows ?s1 = Inr s'"
    by (auto simp: delete_invoice_by_id_def delete_invoice_def ebind_eq_Inr items_of_def
        split: option.splits if_splits)
  from assms(3) have st: "\<forall>row \<in> set (products ?s1).
             0 \<le> stock_quantity (snd row) \<and> stock_quantity (snd row) \<le> 2147483647"
    by (auto simp: valid_db_def checks_ok_def list_all_iff int4_range_def)
  from assms(3) have q: "\<forall>row \<in> set ?rows. 0 < ii_quantity (snd row)"
    by (auto simp: valid_db_def checks_ok_def list_all_iff items_of_def)
  have inv: "\<forall>row \<in> set ?rows. select_by_id (invoices ?s1) (ii_invoice_id (snd row)) = None"
    by (auto simp: items_of_def delete_by_id_absent)
  from fire_item_deletes_result [OF st q inv] loop have s': "s' = ?s2"
    by (simp split: if_splits)
  show ?thesis
  proof (rule ledger_delta [OF assms(2), where d = "sold_on ?rows"])
    show "map (\<lambda>row. (fst row, stock_quantity (snd row))) (products s') =
        map (\<lambda>row. (fst row, stock_quantity (snd row) + sold_on ?rows (fst row))) (products s)"
      by (simp add: s' comp_def)
  next
    fix j
    have "purchased s' j = purchased s j" by (simp add: s' purchased_def)
    moreover have "sold s' j = sold s j - sold_on ?rows j"
      using sold_invoice_delete [where s = s and iv = "delete_by_id i (invoices s)"
          and i = i and j = j]
      by (simp add: s' sold_def)
    ultimately show "purchased s' j - sold s' j = purchased s j - sold s j + sold_on ?rows j"
      by simp
  qed
qed

text \<open>
  Every mutation of the core but an update of a purchase that changes its product keeps
  the stock ledger balanced.
\<close>

lemma ledger_preserved:
  assumes "apply_mutation m s = Inr s'" and "ledger_ok s" and "valid_db s"
    and "\<not> changes_purchase_product m s"
  shows "ledger_ok s'"
proof (cases m)
  case (InsertPurchase k new)
  with assms show ?thesis by (auto dest: ledger_insert_purchase)
next
  case (UpdatePurchase k new)
  with assms show ?thesis by (auto dest: ledger_update_purchase)
next
  case (DeletePurchase k)
  with assms show ?thesis by (auto dest: ledger_delete_purchase)
next
  case (InsertInvoiceItem k new)
  with assms show ?thesis by (auto dest: ledger_insert_invoice_item)
next
  case (UpdateInvoiceItem k new)
  with assms show ?thesis by (auto dest: ledger_update_invoice_item)
next
  case (DeleteInvoiceItem k)
  with assms show ?thesis by (auto dest: ledger_delete_invoice_item)
next
  case (DeleteInvoiceById i)
  with assms show ?thesis by (auto dest: ledger_delete_invoice_by_id)
next
  case (DeletePurchaseSafely k)
  with assms(1) have "delete_purchase k s = Inr s'"
    by (auto simp: delete_purchase_safely_def ebind_eq_Inr Let_def
        split: option.splits if_splits)
  then show ?thesis using assms(2,3) by (rule ledger_delete_purchase)
qed

lemma ledger_preserved_transaction:
  assumes "ledger_ok s" and "valid_db s" and "\<not> changes_purchase_product m s"
  shows "ledger_ok (transaction m s)"
proof (cases "apply_mutation m s")
  case (Inl e)
  with assms(1) show ?thesis by (simp add: transaction_def)
next
  case (Inr s')
  from ledger_preserved [OF Inr assms] Inr show ?thesis by (simp add: transaction_def)
qed

section \<open>C1: the stock ledger\<close>

text \<open>
  C1 (the code at a failing input): from the shop before any purchase, in which every
  stock is the purchases minus the sales, recording a purchase of 10 Urea and then
  changing its product to DAP leaves Urea at 10 with nothing bought and DAP at 0 with 10
  bought. The state still satisfies every constraint of the schema. By
  \<open>ledger_preserved\<close> above, an update of a purchase that changes its product is the
  only mutation of the core that can unbalance the ledger.
\<close>

theorem ledger_broken_by_purchase_update:
  "valid_db fresh_db \<and> ledger_ok fresh_db \<and>
   valid_db (run relabel_steps fresh_db) \<and>
   \<not> ledger_ok (run relabel_steps fresh_db) \<and>
   stock_of (run relabel_steps fresh_db) 1 = Some 10 \<and>
   purchased (run relabel_steps fresh_db) 1 = 0 \<and>
   sold (run relabel_steps fresh_db) 1 = 0 \<and>
   stock_of (run relabel_steps fresh_db) 2 = Some 0 \<and>
   purchased (run relabel_steps fresh_db) 2 = 10 \<and>
   sold (run relabel_steps fresh_db) 2 = 0"
  by code_simp

section \<open>C2: a purchase update that changes the product\<close>

text \<open>
  C2 (the code at a failing input): in the example shop purchase 3 records 5 units of
  Urea (product 1, stock 11). Updating it to 5 units of DAP (product 2, stock 2) succeeds
  and leaves both stocks as they were, where the claim has 6 and 7: the UPDATE branch of
  \<^verbatim>\<open>update_stock_on_purchase\<close> adjusts the row of \<^verbatim>\<open>NEW.product_id\<close> by both quantities
  and never touches the row of \<^verbatim>\<open>OLD.product_id\<close>.
\<close>

theorem update_purchase_moves_no_stock:
  "select_by_id (purchases shop_db) 3 =
     Some \<lparr>pu_product_id = 1, purchase_date = 12, reference_invoice = Some ''PO-3'',
            pu_quantity = 5\<rparr> \<and>
   stock_of shop_db 1 = Some 11 \<and> stock_of shop_db 2 = Some 2 \<and>
   (\<exists>s'. update_purchase 3
            \<lparr>pu_product_id = 2, purchase_date = 12, reference_invoice = Some ''PO-3'',
               pu_quantity = 5\<rparr> shop_db = Inr s' \<and>
         stock_of s' 1 = Some 11 \<and> stock_of s' 2 = Some 2)"
proof -
  let ?new = "\<lparr>pu_product_id = 2, purchase_date = 12, reference_invoice = Some ''PO-3'',
               pu_quantity = 5\<rparr>"
  let ?s' = "shop_db\<lparr>purchases := replace_by_id 3 ?new (purchases shop_db)\<rparr>"
  have "update_purchase 3 ?new shop_db = Inr ?s'" by code_simp
  moreover have "stock_of ?s' 1 = Some 11" and "stock_of ?s' 2 = Some 2" by code_simp+
  ultimately have "\<exists>s'. update_purchase 3 ?new shop_db = Inr s' \<and>
         stock_of s' 1 = Some 11 \<and> stock_of s' 2 = Some 2"
    by blast
  moreover have "select_by_id (purchases shop_db) 3 =
     Some \<lparr>pu_product_id = 1, purchase_date = 12, reference_invoice = Some ''PO-3'',
            pu_quantity = 5\<rparr>"
    and "stock_of shop_db 1 = Some 11" and "stock_of shop_db 2 = Some 2"
    by code_simp+
  ultimately show ?thesis by (intro conjI)
qed

section \<open>C3: invoice totals\<close>



section \<open>C4: the guarded deletion of a purchase\<close>

text \<open>
  C4: \<^verbatim>\<open>delete_purchase_safely\<close> on a state that satisfies the constraints of the schema.
  An unknown id fails with \<open>NotFound\<close>. For a purchase that exists, the product it
  references has a stock; if the stock minus the purchase's quantity is negative the call
  fails with \<open>WouldViolateInvariant\<close> and the transaction leaves the state as it was;
  otherwise the purchase row is deleted, the stock of the product decreases by exactly
  the purchase's quantity, and nothing else changes.
\<close>

theorem delete_purchase_safely_cases:
  assumes "valid_db s"
  shows "(select_by_id (purchases s) k = None \<longrightarrow>
            delete_purchase_safely k s = Inl NotFound) \<and>
         (\<forall>pu. select_by_id (purchases s) k = Some pu \<longrightarrow>
            (\<exists>c. stock_of s (pu_product_id pu) = Some c \<and>
              (if c - pu_quantity pu < 0 then
                 delete_purchase_safely k s = Inl WouldViolateInvariant \<and>
                 transaction (DeletePurchaseSafely k) s = s
               else
                 (\<exists>s'. delete_purchase_safely k s = Inr s' \<and>
                    purchases s' = delete_by_id k (purchases s) \<and>
                    select_by_id (purchases s') k = None \<and>
                    invoices s' = invoices s \<and> invoice_items s' = invoice_items s \<and>
                    (\<forall>i. stock_of s' i =
                       (if i = pu_product_id pu then Some (c - pu_quantity pu)
                        else stock_of s i))))))"
proof (intro conjI impI allI)
  assume "select_by_id (purchases s) k = None"
  then show "delete_purchase_safely k s = Inl NotFound"
    by (simp add: delete_purchase_safely_def)
next
  fix pu
  assume pu: "select_by_id (purchases s) k = Some pu"
  from valid_purchase_row [OF assms pu] obtain p
    where p: "select_by_id (products s) (pu_product_id pu) = Some p"
      and q: "int4_range (pu_quantity pu)" "0 < pu_quantity pu"
    by blast
  define c where "c = stock_quantity p"
  from p have sc: "stock_of s (pu_product_id pu) = Some c"
    by (simp add: stock_of_def c_def)
  from valid_product_row [OF assms p] have cr: "int4_range c" "0 \<le> c"
    by (simp_all add: c_def)
  from cr q have "int4_range (c - pu_quantity pu)" by (simp add: int4_range_def)
  then have d: "int4 (c - pu_quantity pu) = Inr (c - pu_quantity pu)"
    by (rule int4_in_range)
  from pu p d have unfold: "delete_purchase_safely k s =
      (if c - pu_quantity pu < 0 then Inl WouldViolateInvariant else delete_purchase k s)"
    by (simp add: delete_purchase_safely_def Let_def c_def)
  show "\<exists>c. stock_of s (pu_product_id pu) = Some c \<and>
          (if c - pu_quantity pu < 0 then
             delete_purchase_safely k s = Inl WouldViolateInvariant \<and>
             transaction (DeletePurchaseSafely k) s = s
           else
             (\<exists>s'. delete_purchase_safely k s = Inr s' \<and>
                purchases s' = delete_by_id k (purchases s) \<and>
                select_by_id (purchases s') k = None \<and>
                invoices s' = invoices s \<and> invoice_items s' = invoice_items s \<and>
                (\<forall>i. stock_of s' i =
                   (if i = pu_product_id pu then Some (c - pu_quantity pu)
                    else stock_of s i))))"
  proof (intro exI [of _ c] conjI sc)
    show "if c - pu_quantity pu < 0 then
             delete_purchase_safely k s = Inl WouldViolateInvariant \<and>
             transaction (DeletePurchaseSafely k) s = s
           else
             (\<exists>s'. delete_purchase_safely k s = Inr s' \<and>
                purchases s' = delete_by_id k (purchases s) \<and>
                select_by_id (purchases s') k = None \<and>
                invoices s' = invoices s \<and> invoice_items s' = invoice_items s \<and>
                (\<forall>i. stock_of s' i =
                   (if i = pu_product_id pu then Some (c - pu_quantity pu)
                    else stock_of s i)))"
    proof (cases "c - pu_quantity pu < 0")
      case True
      with unfold have "delete_purchase_safely k s = Inl WouldViolateInvariant" by simp
      with True show ?thesis by (simp add: transaction_def)
    next
      case False
      then have "0 \<le> c - pu_quantity pu" by simp
      from delete_purchase_present [OF assms pu sc this] obtain s'
        where "delete_purchase k s = Inr s'"
          and "purchases s' = delete_by_id k (purchases s)"
          and "invoices s' = invoices s" and "invoice_items s' = invoice_items s"
          and "\<forall>i. stock_of s' i =
                 (if i = pu_product_id pu then Some (c - pu_quantity pu) else stock_of s i)"
        by blast
      with False unfold show ?thesis by (simp add: delete_by_id_absent)
    qed
  qed
qed

theorem delete_purchase_safely_cases_witness:
  "valid_db shop_db \<and>
   delete_purchase_safely 99 shop_db = Inl NotFound \<and>
   delete_purchase_safely 2 shop_db = Inl WouldViolateInvariant \<and>
   transaction (DeletePurchaseSafely 2) shop_db = shop_db \<and>
   (\<exists>s'. delete_purchase_safely 3 shop_db = Inr s' \<and>
      select_by_id (purchases s') 3 = None \<and>
      stock_of s' 1 = Some 6 \<and> stock_of s' 2 = Some 2)"
proof -
  have v: "valid_db shop_db" by code_simp
  have n: "select_by_id (purchases shop_db) 99 = None" by code_simp
  with delete_purchase_safely_cases [OF v, of 99]
  have a: "delete_purchase_safely 99 shop_db = Inl NotFound" by blast
  let ?pu2 = "\<lparr>pu_product_id = 2, purchase_date = 12, reference_invoice = None,
               pu_quantity = 10\<rparr>"
  have p2: "select_by_id (purchases shop_db) 2 = Some ?pu2" by code_simp
  have c2: "stock_of shop_db 2 = Some 2" by code_simp
  from delete_purchase_safely_cases [OF v, of 2] p2 obtain c
    where "stock_of shop_db (pu_product_id ?pu2) = Some c"
      and r2: "if c - pu_quantity ?pu2 < 0 then
                 delete_purchase_safely 2 shop_db = Inl WouldViolateInvariant \<and>
                 transaction (DeletePurchaseSafely 2) shop_db = shop_db
               else
                 (\<exists>s'. delete_purchase_safely 2 shop_db = Inr s' \<and>
                    purchases s' = delete_by_id 2 (purchases shop_db) \<and>
                    select_by_id (purchases s') 2 = None \<and>
                    invoices s' = invoices shop_db \<and>
                    invoice_items s' = invoice_items shop_db \<and>
                    (\<forall>i. stock_of s' i =
                       (if i = pu_product_id ?pu2 then Some (c - pu_quantity ?pu2)
                        else stock_of shop_db i)))"
    by blast
  with c2 have "c = 2" by simp
  with r2 have b: "delete_purchase_safely 2 shop_db = Inl WouldViolateInvariant \<and>
                 transaction (DeletePurchaseSafely 2) shop_db = shop_db"
    by simp
  let ?pu3 = "\<lparr>pu_product_id = 1, purchase_date = 12, reference_invoice = Some ''PO-3'',
               pu_quantity = 5\<rparr>"
  have p3: "select_by_id (purchases shop_db) 3 = Some ?pu3" by code_simp
  have c3: "stock_of shop_db 1 = Some 11" by code_simp
  have c3': "stock_of shop_db 2 = Some 2" by code_simp
  from delete_purchase_safely_cases [OF v, of 3] p3 obtain c'
    where "stock_of shop_db (pu_product_id ?pu3) = Some c'"
      and r3: "if c' - pu_quantity ?pu3 < 0 then
                 delete_purchase_safely 3 shop_db = Inl WouldViolateInvariant \<and>
                 transaction (DeletePurchaseSafely 3) shop_db = shop_db
               else
                 (\<exists>s'. delete_purchase_safely 3 shop_db = Inr s' \<and>
                    purchases s' = delete_by_id 3 (purchases shop_db) \<and>
                    select_by_id (purchases s') 3 = None \<and>
                    invoices s' = invoices shop_db \<and>
                    invoice_items s' = invoice_items shop_db \<and>
                    (\<forall>i. stock_of s' i =
                       (if i = pu_product_id ?pu3 then Some (c' - pu_quantity ?pu3)
                        else stock_of shop_db i)))"
    by blast
  with c3 have "c' = 11" by simp
  with r3 obtain s' where s': "delete_purchase_safely 3 shop_db = Inr s'"
      "select_by_id (purchases s') 3 = None"
      "\<forall>i. stock_of s' i = (if i = 1 then Some 6 else stock_of shop_db i)"
    by auto
  from s'(3) c3' have "stock_of s' 1 = Some 6" "stock_of s' 2 = Some 2" by simp_all
  with s'(1,2) have "\<exists>s'. delete_purchase_safely 3 shop_db = Inr s' \<and>
      select_by_id (purchases s') 3 = None \<and>
      stock_of s' 1 = Some 6 \<and> stock_of s' 2 = Some 2"
    by blast
  with v a b show ?thesis by blast
qed

section \<open>C5: the deletion of an invoice\<close>

text \<open>
  C5 (as amended): \<^verbatim>\<open>delete_invoice_by_id\<close> on a state that satisfies the CHECK
  constraints. An unknown id fails with \<open>NotFound\<close> and the state stays as it was. For
  an invoice that exists: if adding, for every product, the quantity that the invoice's
  items sold of it keeps the stock within the 32-bit range, then the invoice and all its
  items are deleted, the purchases are untouched and every product's stock has grown by
  that quantity; otherwise the call fails with \<open>IntegerOutOfRange\<close> and the state stays
  as it was.
\<close>

theorem delete_invoice_by_id_cases:
  assumes "checks_ok s"
  shows "(select_by_id (invoices s) i = None \<longrightarrow>
            delete_invoice_by_id i s = Inl NotFound \<and>
            transaction (DeleteInvoiceById i) s = s) \<and>
         (select_by_id (invoices s) i \<noteq> None \<longrightarrow>
            (if \<forall>row \<in> set (products s).
                  stock_quantity (snd row) + sold_on (items_of s i) (fst row) \<le> 2147483647
             then \<exists>s'. delete_invoice_by_id i s = Inr s' \<and>
                    select_by_id (invoices s') i = None \<and>
                    invoices s' = delete_by_id i (invoices s) \<and>
                    items_of s' i = [] \<and>
                    invoice_items s' =
                      filter (\<lambda>row. ii_invoice_id (snd row) \<noteq> i) (invoice_items s) \<and>
                    purchases s' = purchases s \<and>
                    (\<forall>j. stock_of s' j =
                           map_option (\<lambda>q. q + sold_on (items_of s i) j) (stock_of s j))
             else delete_invoice_by_id i s = Inl IntegerOutOfRange \<and>
                  transaction (DeleteInvoiceById i) s = s))"
proof (intro conjI impI)
  assume "select_by_id (invoices s) i = None"
  then have "delete_invoice_by_id i s = Inl NotFound"
    by (simp add: delete_invoice_by_id_def delete_invoice_def)
  then show "delete_invoice_by_id i s = Inl NotFound"
    and "transaction (DeleteInvoiceById i) s = s"
    by (simp_all add: transaction_def)
next
  assume found: "select_by_id (invoices s) i \<noteq> None"
  let ?rows = "items_of s i"
  let ?s1 = "s\<lparr>invoices := delete_by_id i (invoices s),
               invoice_items :=
                 filter (\<lambda>row. ii_invoice_id (snd row) \<noteq> i) (invoice_items s)\<rparr>"
  let ?cond = "\<forall>row \<in> set (products s).
                  stock_quantity (snd row) + sold_on ?rows (fst row) \<le> 2147483647"
  let ?s' = "?s1\<lparr>products :=
                  map (\<lambda>row. (fst row,
                         (snd row)\<lparr>stock_quantity :=
                            stock_quantity (snd row) + sold_on ?rows (fst row)\<rparr>))
                    (products s)\<rparr>"
  from assms have st: "\<forall>row \<in> set (products ?s1).
             0 \<le> stock_quantity (snd row) \<and> stock_quantity (snd row) \<le> 2147483647"
    by (auto simp: checks_ok_def list_all_iff int4_range_def)
  from assms have q: "\<forall>row \<in> set ?rows. 0 < ii_quantity (snd row)"
    by (auto simp: checks_ok_def list_all_iff items_of_def)
  have inv: "\<forall>row \<in> set ?rows. select_by_id (invoices ?s1) (ii_invoice_id (snd row)) = None"
    by (auto simp: items_of_def delete_by_id_absent)
  from fire_item_deletes_result [OF st q inv]
  have loop: "fire_item_deletes ?rows ?s1 = (if ?cond then Inr ?s' else Inl IntegerOutOfRange)"
    by simp
  from found have call: "delete_invoice_by_id i s =
      ebind (fire_item_deletes ?rows ?s1) Inr"
    by (cases "fire_item_deletes ?rows ?s1")
      (auto simp: delete_invoice_by_id_def delete_invoice_def items_of_def)
  show "if ?cond
        then \<exists>s'. delete_invoice_by_id i s = Inr s' \<and>
               select_by_id (invoices s') i = None \<and>
               invoices s' = delete_by_id i (invoices s) \<and>
               items_of s' i = [] \<and>
               invoice_items s' =
                 filter (\<lambda>row. ii_invoice_id (snd row) \<noteq> i) (invoice_items s) \<and>
               purchases s' = purchases s \<and>
               (\<forall>j. stock_of s' j =
                      map_option (\<lambda>q. q + sold_on ?rows j) (stock_of s j))
        else delete_invoice_by_id i s = Inl IntegerOutOfRange \<and>
             transaction (DeleteInvoiceById i) s = s"
  proof (cases ?cond)
    case True
    with loop call have r: "delete_invoice_by_id i s = Inr ?s'" by simp
    have "select_by_id (invoices ?s') i = None" by (simp add: delete_by_id_absent)
    moreover have "items_of ?s' i = []" by (simp add: items_of_def)
    moreover have "\<forall>j. stock_of ?s' j =
        map_option (\<lambda>q. q + sold_on ?rows j) (stock_of s j)"
      by (simp add: stock_of_def select_by_id_def map_of_restock option.map_comp comp_def)
    ultimately have "\<exists>s'. delete_invoice_by_id i s = Inr s' \<and>
               select_by_id (invoices s') i = None \<and>
               invoices s' = delete_by_id i (invoices s) \<and>
               items_of s' i = [] \<and>
               invoice_items s' =
                 filter (\<lambda>row. ii_invoice_id (snd row) \<noteq> i) (invoice_items s) \<and>
               purchases s' = purchases s \<and>
               (\<forall>j. stock_of s' j =
                      map_option (\<lambda>q. q + sold_on ?rows j) (stock_of s j))"
      using r by (intro exI [of _ ?s']) simp
    with True show ?thesis by simp
  next
    case False
    with loop call have "delete_invoice_by_id i s = Inl IntegerOutOfRange" by simp
    with False show ?thesis by (simp add: transaction_def)
  qed
qed

theorem delete_invoice_by_id_cases_witness:
  "checks_ok shop_db \<and>
   delete_invoice_by_id 99 shop_db = Inl NotFound \<and>
   transaction (DeleteInvoiceById 99) shop_db = shop_db \<and>
   stock_of shop_db 2 = Some 2 \<and>
   sold_on (items_of shop_db 2) 2 = 3 + 5 \<and>
   (\<exists>s'. delete_invoice_by_id 2 shop_db = Inr s' \<and>
      select_by_id (invoices s') 2 = None \<and> items_of s' 2 = [] \<and>
      stock_of s' 1 = Some 11 \<and> stock_of s' 2 = Some 10)"
proof -
  have v: "checks_ok shop_db" by code_simp
  have n: "select_by_id (invoices shop_db) 99 = None" by code_simp
  with delete_invoice_by_id_cases [OF v, of 99]
  have a: "delete_invoice_by_id 99 shop_db = Inl NotFound \<and>
           transaction (DeleteInvoiceById 99) shop_db = shop_db"
    by blast
  have f: "select_by_id (invoices shop_db) 2 \<noteq> None" by code_simp
  have c: "\<forall>row \<in> set (products shop_db).
             stock_quantity (snd row) + sold_on (items_of shop_db 2) (fst row) \<le> 2147483647"
    by code_simp
  have s1: "stock_of shop_db 1 = Some 11" and s2: "stock_of shop_db 2 = Some 2"
    and so1: "sold_on (items_of shop_db 2) 1 = 0" and so2: "sold_on (items_of shop_db 2) 2 = 3 + 5"
    by code_simp+
  from delete_invoice_by_id_cases [OF v, of 2] f c obtain s'
    where r: "delete_invoice_by_id 2 shop_db = Inr s'"
      "select_by_id (invoices s') 2 = None" "items_of s' 2 = []"
      "\<forall>j. stock_of s' j =
         map_option (\<lambda>q. q + sold_on (items_of shop_db 2) j) (stock_of shop_db j)"
    by auto
  from r(4) s1 s2 so1 so2 have "stock_of s' 1 = Some 11" "stock_of s' 2 = Some 10"
    by simp_all
  with r(1-3) have "\<exists>s'. delete_invoice_by_id 2 shop_db = Inr s' \<and>
      select_by_id (invoices s') 2 = None \<and> items_of s' 2 = [] \<and>
      stock_of s' 1 = Some 11 \<and> stock_of s' 2 = Some 10"
    by blast
  with v a s2 so2 show ?thesis by blast
qed

text \<open>
  C5 as stated fails where a restored stock does not fit the column. The state below is
  reached from the shop before any purchase by three successful mutations; it satisfies
  every constraint and the stock ledger. Invoice 1 exists, with one item of 1 Urea, and
  Urea has 2147483647 in stock: \<^verbatim>\<open>delete_invoice_by_id\<close> does not delete the invoice but
  fails, and not with \<open>NotFound\<close>.
\<close>

theorem delete_invoice_overflow_counterexample:
  "valid_db (run overstock_steps fresh_db) \<and>
   ledger_ok (run overstock_steps fresh_db) \<and>
   select_by_id (invoices (run overstock_steps fresh_db)) 1 \<noteq> None \<and>
   stock_of (run overstock_steps fresh_db) 1 = Some 2147483647 \<and>
   sold_on (items_of (run overstock_steps fresh_db) 1) 1 = 1 \<and>
   delete_invoice_by_id 1 (run overstock_steps fresh_db) = Inl IntegerOutOfRange"
  by code_simp

section \<open>C6: overselling\<close>

text \<open>
  C6 (as amended): inserting an invoice item whose quantity exceeds the current stock of
  its product never succeeds. The insert fails and the transaction leaves the state as
  it was; when the stock is not negative and the quantity is a 32-bit integer, the error
  is the constraint violation.
\<close>

theorem oversell_is_rejected:
  assumes "select_by_id (products s) (ii_product_id new) = Some p"
    and "stock_quantity p < ii_quantity new"
  shows "(\<exists>e. insert_invoice_item k new s = Inl e) \<and>
         transaction (InsertInvoiceItem k new) s = s \<and>
         (0 \<le> stock_quantity p \<and> int4_range (ii_quantity new) \<longrightarrow>
            insert_invoice_item k new s = Inl ConstraintViolation)"
proof -
  from assms obtain e where e: "insert_invoice_item k new s = Inl e"
    using insert_invoice_item_oversell by blast
  then have "transaction (InsertInvoiceItem k new) s = s"
    by (simp add: transaction_def)
  moreover have "insert_invoice_item k new s = Inl ConstraintViolation"
    if "0 \<le> stock_quantity p" and "int4_range (ii_quantity new)"
    using assms that by (rule insert_invoice_item_oversell_error)
  ultimately show ?thesis using e by blast
qed

theorem oversell_is_rejected_witness:
  "select_by_id (products shop_db) 1 =
     Some \<lparr>p_name = ''Urea'', stock_quantity = 11, p_unit_price = 250, p_tax_rate = 1 / 20\<rparr> \<and>
   insert_invoice_item 4
     \<lparr>ii_invoice_id = 1, ii_product_id = 1, ii_quantity = 12, ii_unit_price = 250,
        ii_tax_rate = 1 / 20\<rparr> shop_db = Inl ConstraintViolation \<and>
   transaction
     (InsertInvoiceItem 4
        \<lparr>ii_invoice_id = 1, ii_product_id = 1, ii_quantity = 12, ii_unit_price = 250,
           ii_tax_rate = 1 / 20\<rparr>) shop_db = shop_db"
proof -
  let ?new = "\<lparr>ii_invoice_id = 1, ii_product_id = 1, ii_quantity = 12, ii_unit_price = 250,
        ii_tax_rate = 1 / 20\<rparr>"
  let ?p = "\<lparr>p_name = ''Urea'', stock_quantity = 11, p_unit_price = 250, p_tax_rate = 1 / 20\<rparr>"
  have p: "select_by_id (products shop_db) (ii_product_id ?new) = Some ?p" by code_simp
  have lt: "stock_quantity ?p < ii_quantity ?new" by simp
  have r: "0 \<le> stock_quantity ?p \<and> int4_range (ii_quantity ?new)" by (simp add: int4_range_def)
  note th = oversell_is_rejected [OF p lt, of 4]
  from th r have "insert_invoice_item 4 ?new shop_db = Inl ConstraintViolation" by blast
  moreover from th have "transaction (InsertInvoiceItem 4 ?new) shop_db = shop_db" by blast
  moreover from p have "select_by_id (products shop_db) 1 = Some ?p" by simp
  ultimately show ?thesis by (intro conjI)
qed

text \<open>
  C6 as stated fails: no state at all, reachable or not, lets an insert succeed for an
  item whose quantity exceeds the stock of its product; in the example shop the attempt
  is rejected.
\<close>

theorem oversell_succeeds_counterexample:
  "insert_invoice_item 4
     \<lparr>ii_invoice_id = 1, ii_product_id = 1, ii_quantity = 12, ii_unit_price = 250,
        ii_tax_rate = 1 / 20\<rparr> shop_db = Inl ConstraintViolation \<and>
   \<not> (\<exists>s k new p s'.
         select_by_id (products s) (ii_product_id new) = Some p \<and>
         stock_quantity p < ii_quantity new \<and>
         insert_invoice_item k new s = Inr s')"
proof
  show "insert_invoice_item 4
     \<lparr>ii_invoice_id = 1, ii_product_id = 1, ii_quantity = 12, ii_unit_price = 250,
        ii_tax_rate = 1 / 20\<rparr> shop_db = Inl ConstraintViolation"
    by code_simp
next
  show "\<not> (\<exists>s k new p s'.
         select_by_id (products s) (ii_product_id new) = Some p \<and>
         stock_quantity p < ii_quantity new \<and>
         insert_invoice_item k new s = Inr s')"
  proof
    assume "\<exists>s k new p s'.
         select_by_id (products s) (ii_product_id new) = Some p \<and>
         stock_quantity p < ii_quantity new \<and>
         insert_invoice_item k new s = Inr s'"
    then obtain s k new p s' where
      "select_by_id (products s) (ii_product_id new) = Some p"
      "stock_quantity p < ii_quantity new" and ok: "insert_invoice_item k new s = Inr s'"
      by blast
    then obtain e where "insert_invoice_item k new s = Inl e"
      using insert_invoice_item_oversell by blast
    with ok show False by simp
  qed
qed

section \<open>C7: stock is never negative\<close>



section \<open>C8: the rows of the combined report\<close>

text \<open>
  C8: every row that \<^verbatim>\<open>get_combined_report\<close> returns has its date within
  \<open>[p_start_date, p_end_date]\<close> and is either a sale row, admitted by the filters
  \<open>all\<close> and \<open>sale\<close> only, made from an invoice item, dated by the item's invoice and
  carrying minus the item's quantity, or a purchase row, admitted by \<open>all\<close> and
  \<open>purchase\<close> only, made from a purchase, dated by it and carrying its quantity; each
  names the product of its item or purchase. The rows are in descending order of date
  and, within a date, in ascending order of product name. (Conversely, by
  \<open>combined_report_complete\<close>, a page with offset 0 and a limit of at least the count
  has a row for every item and purchase that passes the joins and the filters.)
\<close>

theorem combined_report_rows:
  assumes "get_combined_report s p_start_date p_end_date ty p_limit p_offset = Inr rows"
  shows "(\<forall>r \<in> set rows.
            p_start_date \<le> transaction_date r \<and> transaction_date r \<le> p_end_date \<and>
            (transaction_type r = ''Sale'' \<and> (ty = ''all'' \<or> ty = ''sale'') \<and>
             (\<exists>it i p. (transaction_id r, it) \<in> set (invoice_items s) \<and>
                 select_by_id (invoices s) (ii_invoice_id it) = Some i \<and>
                 select_by_id (products s) (ii_product_id it) = Some p \<and>
                 transaction_date r = invoice_date i \<and> product_name r = p_name p \<and>
                 quantity_change r = - ii_quantity it)
             \<or>
             transaction_type r = ''Purchase'' \<and> (ty = ''all'' \<or> ty = ''purchase'') \<and>
             (\<exists>pu p. (transaction_id r, pu) \<in> set (purchases s) \<and>
                 select_by_id (products s) (pu_product_id pu) = Some p \<and>
                 transaction_date r = purchase_date pu \<and> product_name r = p_name p \<and>
                 quantity_change r = pu_quantity pu))) \<and>
         sorted_wrt (\<lambda>a b. transaction_date b < transaction_date a \<or>
                        (transaction_date a = transaction_date b \<and>
                         product_name a \<le> product_name b)) rows"
proof
  let ?all = "order_by (report_sales s p_start_date p_end_date ty
                        @ report_purchases s p_start_date p_end_date ty)"
  from assms have rows: "rows = take (nat p_limit) (drop (nat p_offset) ?all)"
    by (simp add: get_combined_report_def limit_offset_def split: if_splits)
  show "\<forall>r \<in> set rows.
            p_start_date \<le> transaction_date r \<and> transaction_date r \<le> p_end_date \<and>
            (transaction_type r = ''Sale'' \<and> (ty = ''all'' \<or> ty = ''sale'') \<and>
             (\<exists>it i p. (transaction_id r, it) \<in> set (invoice_items s) \<and>
                 select_by_id (invoices s) (ii_invoice_id it) = Some i \<and>
                 select_by_id (products s) (ii_product_id it) = Some p \<and>
                 transaction_date r = invoice_date i \<and> product_name r = p_name p \<and>
                 quantity_change r = - ii_quantity it)
             \<or>
             transaction_type r = ''Purchase'' \<and> (ty = ''all'' \<or> ty = ''purchase'') \<and>
             (\<exists>pu p. (transaction_id r, pu) \<in> set (purchases s) \<and>
                 select_by_id (products s) (pu_product_id pu) = Some p \<and>
                 transaction_date r = purchase_date pu \<and> product_name r = p_name p \<and>
                 quantity_change r = pu_quantity pu))"
  proof
    fix r assume "r \<in> set rows"
    with rows have "r \<in> set (take (nat p_limit) (drop (nat p_offset) ?all))" by simp
    then have "r \<in> set (drop (nat p_offset) ?all)" by (rule in_set_takeD)
    then have "r \<in> set ?all" by (rule in_set_dropD)
    then consider
      (sale) "r \<in> set (report_sales s p_start_date p_end_date ty)"
      | (purchase) "r \<in> set (report_purchases s p_start_date p_end_date ty)"
      by auto
    then show "p_start_date \<le> transaction_date r \<and> transaction_date r \<le> p_end_date \<and>
            (transaction_type r = ''Sale'' \<and> (ty = ''all'' \<or> ty = ''sale'') \<and>
             (\<exists>it i p. (transaction_id r, it) \<in> set (invoice_items s) \<and>
                 select_by_id (invoices s) (ii_invoice_id it) = Some i \<and>
                 select_by_id (products s) (ii_product_id it) = Some p \<and>
                 transaction_date r = invoice_date i \<and> product_name r = p_name p \<and>
                 quantity_change r = - ii_quantity it)
             \<or>
             transaction_type r = ''Purchase'' \<and> (ty = ''all'' \<or> ty = ''purchase'') \<and>
             (\<exists>pu p. (transaction_id r, pu) \<in> set (purchases s) \<and>
                 select_by_id (products s) (pu_product_id pu) = Some p \<and>
                 transaction_date r = purchase_date pu \<and> product_name r = p_name p \<and>
                 quantity_change r = pu_quantity pu))"
    proof cases
      case sale
      from report_sales_row [OF sale] obtain k it i p
        where "(k, it) \<in> set (invoice_items s)"
          "select_by_id (invoices s) (ii_invoice_id it) = Some i"
          "select_by_id (products s) (ii_product_id it) = Some p"
          "sale_filter ty p_start_date p_end_date (invoice_date i)"
          "r = \<lparr>transaction_date = invoice_date i, transaction_type = ''Sale'',
                 reference_number = Some (invoice_number i), product_name = p_name p,
                 quantity_change = - ii_quantity it, transaction_id = k\<rparr>"
        by blast
      then show ?thesis by (auto simp: sale_filter_def)
    next
      case purchase
      from report_purchases_row [OF purchase] obtain k pu p
        where "(k, pu) \<in> set (purchases s)"
          "select_by_id (products s) (pu_product_id pu) = Some p"
          "purchase_filter ty p_start_date p_end_date (purchase_date pu)"
          "r = \<lparr>transaction_date = purchase_date pu, transaction_type = ''Purchase'',
                 reference_number = reference_invoice pu, product_name = p_name p,
                 quantity_change = pu_quantity pu, transaction_id = k\<rparr>"
        by blast
      then show ?thesis by (auto simp: purchase_filter_def)
    qed
  qed
  from rows show "sorted_wrt (\<lambda>a b. transaction_date b < transaction_date a \<or>
                        (transaction_date a = transaction_date b \<and>
                         product_name a \<le> product_name b)) rows"
    by (simp add: sorted_order_by)
qed


theorem combined_report_rows_witness:
  "get_combined_report shop_db 12 12 ''sale'' 10 0 =
     Inr [\<lparr>transaction_date = 12, transaction_type = ''Sale'',
            reference_number = Some ''INV-2'', product_name = ''DAP'',
            quantity_change = - 3, transaction_id = 2\<rparr>,
          \<lparr>transaction_date = 12, transaction_type = ''Sale'',
            reference_number = Some ''INV-2'', product_name = ''DAP'',
            quantity_change = - 5, transaction_id = 3\<rparr>] \<and>
   map_sum id (map (\<lambda>r. (transaction_date r, product_name r, quantity_change r)))
     (get_combined_report shop_db 10 12 ''all'' 10 0) =
     Inr [(12, ''DAP'', - 3), (12, ''DAP'', - 5), (12, ''DAP'', 10), (12, ''Urea'', 5),
          (11, ''Urea'', - 4), (10, ''Urea'', 10)] \<and>
   list_all (\<lambda>r. 10 \<le> transaction_date r \<and> transaction_date r \<le> 12)
     (projr (get_combined_report shop_db 10 12 ''all'' 10 0)) \<and>
   sorted_wrt (\<lambda>a b. transaction_date b < transaction_date a \<or>
                  (transaction_date a = transaction_date b \<and>
                   product_name a \<le> product_name b))
     (projr (get_combined_report shop_db 10 12 ''all'' 10 0))"
proof -
  let ?rows = "projr (get_combined_report shop_db 10 12 ''all'' 10 0)"
  have r: "get_combined_report shop_db 10 12 ''all'' 10 0 = Inr ?rows" by code_simp
  note th = combined_report_rows [OF r]
  from th have "\<forall>r \<in> set ?rows. 10 \<le> transaction_date r \<and> transaction_date r \<le> 12"
    by blast
  then have a: "list_all (\<lambda>r. 10 \<le> transaction_date r \<and> transaction_date r \<le> 12) ?rows"
    by (simp add: list_all_iff)
  from th have b: "sorted_wrt (\<lambda>a b. transaction_date b < transaction_date a \<or>
                  (transaction_date a = transaction_date b \<and>
                   product_name a \<le> product_name b)) ?rows"
    by (rule conjunct2)
  have c: "get_combined_report shop_db 12 12 ''sale'' 10 0 =
     Inr [\<lparr>transaction_date = 12, transaction_type = ''Sale'',
            reference_number = Some ''INV-2'', product_name = ''DAP'',
            quantity_change = - 3, transaction_id = 2\<rparr>,
          \<lparr>transaction_date = 12, transaction_type = ''Sale'',
            reference_number = Some ''INV-2'', product_name = ''DAP'',
            quantity_change = - 5, transaction_id = 3\<rparr>]"
    by code_simp
  have d: "map_sum id (map (\<lambda>r. (transaction_date r, product_name r, quantity_change r)))
     (get_combined_report shop_db 10 12 ''all'' 10 0) =
     Inr [(12, ''DAP'', - 3), (12, ''DAP'', - 5), (12, ''DAP'', 10), (12, ''Urea'', 5),
          (11, ''Urea'', - 4), (10, ''Urea'', 10)]"
    by code_simp
  from c d a b show ?thesis by (intro conjI)
qed

section \<open>C9: the count agrees with the export\<close>

text \<open>
  C9: in a state whose foreign keys hold, \<^verbatim>\<open>get_combined_report_count\<close> is the number of
  rows of \<^verbatim>\<open>export_combined_report\<close> for the same date range and type filter. The count
  query does not join the products; every item and purchase references a product, so the
  export's join drops no row.
\<close>

theorem report_count_is_export_length:
  assumes "fkeys_ok s"
  shows "get_combined_report_count s st en ty =
           int (length (export_combined_report s st en ty))"
  using assms
  by (simp add: get_combined_report_count_def export_combined_report_def
      count_sales_length count_purchases_length)

theorem report_count_is_export_length_witness:
  "fkeys_ok shop_db \<and>
   get_combined_report_count shop_db 11 12 ''all'' = 5 \<and>
   length (export_combined_report shop_db 11 12 ''all'') = 5 \<and>
   get_combined_report_count shop_db 11 12 ''sale'' = 3 \<and>
   length (export_combined_report shop_db 11 12 ''sale'') = 3"
proof -
  have fk: "fkeys_ok shop_db" by code_simp
  have a: "get_combined_report_count shop_db 11 12 ''all'' = 5"
    and s: "get_combined_report_count shop_db 11 12 ''sale'' = 3"
    by code_simp+
  from report_count_is_export_length [OF fk, of 11 12 "''all''"] a
  have "length (export_combined_report shop_db 11 12 ''all'') = 5" by simp
  moreover from report_count_is_export_length [OF fk, of 11 12 "''sale''"] s
  have "length (export_combined_report shop_db 11 12 ''sale'') = 3" by simp
  ultimately show ?thesis using fk a s by (intro conjI)
qed

section \<open>C10: pages are windows of the export\<close>



end
